theory Spec2Isabelle
  imports Main "HOL-Library.Word" "HOL-Library.Sublist"
begin

section \<open>Data model\<close>

text \<open>
  The protocol-buffer messages that \<^verbatim>\<open>onnx/defs/function.cc\<close> reads and writes, as
  records. An optional field whose presence the code tests (\<^verbatim>\<open>has_name\<close>,
  \<^verbatim>\<open>has_ref_attr_name\<close>) is an \<open>option\<close>; its accessor returns the empty string when the
  field is unset. The typed payload of an attribute is never inspected by the code: it is
  only copied, so it is one opaque field.
\<close>

record TensorProto =
  tp_name :: string
  tp_dims :: "64 word list"
  tp_int64_data :: "64 word list"
  tp_raw_data :: "8 word list"

datatype AttrValue =
    ATTR_UNDEFINED
  | ATTR_INT "64 word"
  | ATTR_STRING string
  | ATTR_INTS "64 word list"
  | ATTR_TENSOR TensorProto

record AttributeProto =
  ap_name :: "string option"
  ap_ref_attr_name :: "string option"
  ap_value :: AttrValue

record NodeProto =
  np_name :: "string option"
  np_op_type :: string
  np_domain :: string
  np_doc_string :: string
  np_input :: "string list"
  np_output :: "string list"
  np_attribute :: "AttributeProto list"

record OperatorSetIdProto =
  os_domain :: string
  os_version :: "64 word"

record FunctionProto =
  fp_name :: string
  fp_input :: "string list"
  fp_output :: "string list"
  fp_node :: "NodeProto list"
  fp_opset_import :: "OperatorSetIdProto list"

record ValueInfoProto =
  vi_name :: string

record GraphProto =
  gp_name :: string
  gp_node :: "NodeProto list"
  gp_initializer :: "TensorProto list"
  gp_input :: "ValueInfoProto list"
  gp_output :: "ValueInfoProto list"

text \<open>
  \<^verbatim>\<open>OpSchema::attributes()\<close> is a \<^verbatim>\<open>std::map\<close> from attribute name to
  \<^verbatim>\<open>OpSchema::Attribute\<close>; the loop walks it in key order, so it is an association
  list. The registry is a process-wide singleton that the code only reads: it is a
  parameter of the model, a lookup by operator type, version and domain that returns no
  schema where \<^verbatim>\<open>GetSchema\<close> returns a null pointer.
\<close>

record Attribute =
  at_required :: bool
  at_default_value :: AttributeProto

record OpSchema =
  sc_attributes :: "(string \<times> Attribute) list"

type_synonym OpSchemaRegistry = "string \<Rightarrow> 32 word \<Rightarrow> string \<Rightarrow> OpSchema option"

text \<open>
  What the code can raise: \<^verbatim>\<open>ONNX_THROW\<close> and \<^verbatim>\<open>ONNX_ASSERTM\<close> with their message,
  and the two places where the C++ has no defined behaviour (a null schema pointer is
  dereferenced, a buffer is read past its end).
\<close>

datatype error =
    ONNX_THROW string
  | ONNX_ASSERTM string
  | NullSchemaDereference
  | OutOfBoundsRead

section \<open>FunctionExpandHelper\<close>

definition attr_name :: "AttributeProto \<Rightarrow> string" where
  "attr_name a = (case ap_name a of Some n \<Rightarrow> n | None \<Rightarrow> [])"

definition InteralTensorNameGenerator :: "string \<Rightarrow> string \<Rightarrow> string" where
  "InteralTensorNameGenerator node_name internal_name = ''Func_'' @ node_name @ internal_name"

text \<open>
  Lines 22 to 29. \<open>address\<close> is the text that the stream prints for the address of the
  call-site node; two nodes that are alive together have different addresses.
\<close>

definition resolved_node_name :: "NodeProto \<Rightarrow> string \<Rightarrow> FunctionProto \<Rightarrow> string \<Rightarrow> string" where
  "resolved_node_name node address func node_prefix =
     (let uniq_prefix = (if node_prefix = [] then address else node_prefix)
      in case np_name node of Some n \<Rightarrow> n | None \<Rightarrow> fp_name func @ uniq_prefix)"

type_synonym io_names = "string \<rightharpoonup> string"

definition input_out_of_bounds :: "string \<Rightarrow> error" where
  "input_out_of_bounds node_name =
     ONNX_THROW (''Input for function node '' @ node_name @ '' is out of bounds'')"

definition output_out_of_bounds :: "string \<Rightarrow> error" where
  "output_out_of_bounds node_name =
     ONNX_THROW (''Output for function node '' @ node_name @ '' is out of bounds'')"

text \<open>One round of the loop of lines 33 to 38, at index \<open>idx\<close>; an error ends the loop.\<close>

definition bind_input_step ::
  "string \<Rightarrow> string list \<Rightarrow> string list \<Rightarrow> nat \<Rightarrow> error + io_names \<Rightarrow> error + io_names" where
  "bind_input_step node_name formals actuals idx acc =
     (case acc of
        Inl e \<Rightarrow> Inl e
      | Inr m \<Rightarrow>
          if idx \<ge> length formals
          then Inl (input_out_of_bounds node_name)
          else Inr (m(formals ! idx \<mapsto> actuals ! idx)))"

definition bind_inputs ::
  "string \<Rightarrow> string list \<Rightarrow> string list \<Rightarrow> io_names \<Rightarrow> error + io_names" where
  "bind_inputs node_name formals actuals m =
     fold (bind_input_step node_name formals actuals) [0 ..< length actuals] (Inr m)"

text \<open>One round of the loop of lines 39 to 50: an empty actual output is skipped.\<close>

definition bind_output_step ::
  "string \<Rightarrow> string list \<Rightarrow> string list \<Rightarrow> nat \<Rightarrow> error + io_names \<Rightarrow> error + io_names" where
  "bind_output_step node_name formals actuals idx acc =
     (case acc of
        Inl e \<Rightarrow> Inl e
      | Inr m \<Rightarrow>
          if idx \<ge> length formals
          then Inl (output_out_of_bounds node_name)
          else if actuals ! idx = [] then Inr m
          else Inr (m(formals ! idx \<mapsto> actuals ! idx)))"

definition bind_outputs ::
  "string \<Rightarrow> string list \<Rightarrow> string list \<Rightarrow> io_names \<Rightarrow> error + io_names" where
  "bind_outputs node_name formals actuals m =
     fold (bind_output_step node_name formals actuals) [0 ..< length actuals] (Inr m)"

type_synonym attr_map = "string \<rightharpoonup> AttributeProto"

text \<open>Lines 52 to 54: the attributes of the call site, by name; a later one overwrites.\<close>

definition node_attr_map :: "NodeProto \<Rightarrow> attr_map" where
  "node_attr_map node = fold (\<lambda>attr m. m(attr_name attr \<mapsto> attr)) (np_attribute node) Map.empty"

text \<open>
  Lines 59 to 64. \<^verbatim>\<open>domain_version\<close> is an \<^verbatim>\<open>int\<close>; the 64-bit version of an import is
  narrowed to it, and the loop has no \<^verbatim>\<open>break\<close>.
\<close>

definition find_domain_version :: "OperatorSetIdProto list \<Rightarrow> string \<Rightarrow> 32 word" where
  "find_domain_version opset_imports domain =
     fold (\<lambda>opset_import domain_version.
             if os_domain opset_import = domain then ucast (os_version opset_import)
             else domain_version)
          opset_imports (- 1)"

text \<open>Lines 73 to 79: a schema attribute that has no entry yet gets its default value.\<close>

definition add_default_attrs :: "(string \<times> Attribute) list \<Rightarrow> attr_map \<Rightarrow> attr_map" where
  "add_default_attrs default_attrs am =
     fold (\<lambda>(name, attr) m. if m name = None then m(name \<mapsto> at_default_value attr) else m)
          default_attrs am"

text \<open>Lines 87 to 100: a bound name becomes its actual name, any other a generated one.\<close>

definition rename_value :: "io_names \<Rightarrow> string \<Rightarrow> string \<Rightarrow> string" where
  "rename_value io_names_map node_name x =
     (case io_names_map x of
        Some actual \<Rightarrow> actual
      | None \<Rightarrow> InteralTensorNameGenerator node_name x)"

text \<open>Lines 101 to 112, for one attribute of a body node: the attributes it adds.\<close>

definition expand_attribute :: "attr_map \<Rightarrow> AttributeProto \<Rightarrow> AttributeProto list" where
  "expand_attribute am attr =
     (case ap_ref_attr_name attr of
        Some ref \<Rightarrow>
          (case am ref of
             Some resolved \<Rightarrow> [resolved\<lparr>ap_name := Some (attr_name attr)\<rparr>]
           | None \<Rightarrow> [])
      | None \<Rightarrow> [attr])"

text \<open>Lines 82 to 112: the copy of one body node, with its three repeated fields rebuilt.\<close>

definition expand_node :: "io_names \<Rightarrow> attr_map \<Rightarrow> string \<Rightarrow> NodeProto \<Rightarrow> NodeProto" where
  "expand_node io_names_map am node_name function_node =
     function_node
       \<lparr>np_input := map (rename_value io_names_map node_name) (np_input function_node),
        np_output := map (rename_value io_names_map node_name) (np_output function_node),
        np_attribute := concat (map (expand_attribute am) (np_attribute function_node))\<rparr>"

definition no_opset_import_message :: "string \<Rightarrow> string" where
  "no_opset_import_message domain =
     ''No opset import registered for domain '' @ [CHR 0x27] @ domain @ [CHR 0x27]
       @ '' in function proto''"

text \<open>
  Lines 22 to 79, everything that runs before the first body node is cloned: the name of
  the call site, the map from formal to actual names and the resolved attributes, or the
  exception that was raised.
\<close>

definition expand_prologue ::
  "OpSchemaRegistry \<Rightarrow> NodeProto \<Rightarrow> string \<Rightarrow> FunctionProto \<Rightarrow> string
     \<Rightarrow> error + (string \<times> io_names \<times> attr_map)" where
  "expand_prologue schema_registry node address func node_prefix =
     (let node_name = resolved_node_name node address func node_prefix in
      case bind_inputs node_name (fp_input func) (np_input node) Map.empty of
        Inl e \<Rightarrow> Inl e
      | Inr m1 \<Rightarrow>
      (case bind_outputs node_name (fp_output func) (np_output node) m1 of
        Inl e \<Rightarrow> Inl e
      | Inr io_names_map \<Rightarrow>
      (let domain_version = find_domain_version (fp_opset_import func) (np_domain node) in
       if domain_version = - 1
       then Inl (ONNX_THROW (no_opset_import_message (np_domain node)))
       else
         (case schema_registry (np_op_type node) domain_version (np_domain node) of
            None \<Rightarrow> Inl NullSchemaDereference
          | Some schema \<Rightarrow>
              Inr (node_name, io_names_map,
                   add_default_attrs (sc_attributes schema) (node_attr_map node))))))"

text \<open>
  The whole function: the prologue, then the loop of lines 81 to 113 over the body. It
  returns the exception it raised, if any, and the destination graph as the call leaves
  it.
\<close>

definition FunctionExpandHelper ::
  "OpSchemaRegistry \<Rightarrow> NodeProto \<Rightarrow> string \<Rightarrow> FunctionProto \<Rightarrow> GraphProto \<Rightarrow> string
     \<Rightarrow> error option \<times> GraphProto" where
  "FunctionExpandHelper schema_registry node address func g node_prefix =
     (case expand_prologue schema_registry node address func node_prefix of
        Inl e \<Rightarrow> (Some e, g)
      | Inr (node_name, io_names_map, am) \<Rightarrow>
          (None,
           g\<lparr>gp_node := gp_node g
                @ map (expand_node io_names_map am node_name) (fp_node func)\<rparr>))"

text \<open>
  The names that the generator returns (lines 91 and 98) while the body is cloned for one
  call site, in the order of the calls; none when the call raises before the body.
\<close>

definition internal_names_of_node :: "io_names \<Rightarrow> string \<Rightarrow> NodeProto \<Rightarrow> string list" where
  "internal_names_of_node io_names_map node_name function_node =
     map (InteralTensorNameGenerator node_name)
       (filter (\<lambda>x. io_names_map x = None) (np_input function_node @ np_output function_node))"

definition generated_internal_names ::
  "OpSchemaRegistry \<Rightarrow> NodeProto \<Rightarrow> string \<Rightarrow> FunctionProto \<Rightarrow> string \<Rightarrow> string list" where
  "generated_internal_names schema_registry node address func node_prefix =
     (case expand_prologue schema_registry node address func node_prefix of
        Inl e \<Rightarrow> []
      | Inr (node_name, io_names_map, am) \<Rightarrow>
          concat (map (internal_names_of_node io_names_map node_name) (fp_node func)))"

section \<open>FunctionBuilder::AddInlinedCall\<close>

text \<open>The value names that the records of a function or of a graph carry.\<close>

definition node_value_names :: "NodeProto list \<Rightarrow> string list" where
  "node_value_names nodes = concat (map (\<lambda>n. np_input n @ np_output n) nodes)"

definition function_value_names :: "FunctionProto \<Rightarrow> string list" where
  "function_value_names funProto =
     fp_input funProto @ fp_output funProto @ node_value_names (fp_node funProto)"

definition graph_value_names :: "GraphProto \<Rightarrow> string list" where
  "graph_value_names graph =
     map vi_name (gp_input graph) @ map vi_name (gp_output graph)
       @ map tp_name (gp_initializer graph) @ node_value_names (gp_node graph)"

text \<open>
  Modelled from the spec: the class \<^verbatim>\<open>inliner::Renamer\<close> is declared in
  \<^verbatim>\<open>onnx/inliner/inliner.h\<close>, which is not among the sources. Section 4.4 of the
  specification describes it as a binding scope keyed by a prefix, in which a minted
  name is "globally-unique within the scope", "with collision-avoidance against every
  name already emitted by the function under construction". The scope therefore keeps,
  besides its prefix and its bindings, the names that a minted name has to avoid.
\<close>

record Renamer =
  rn_prefix :: string
  rn_bindings :: "string \<rightharpoonup> string"
  rn_taken :: "string list"

text \<open>
  Modelled from the spec: step 1, "create a fresh binding scope keyed by the prefix". The
  scope starts with no binding. The names to avoid are, from the start, the names of the
  spliced graph and the names already emitted by the function under construction. Line
  178 passes the prefix and the graph; how the class learns the names of the function
  under construction is not in the sources, so the model passes them as \<open>emitted\<close>.
\<close>

definition Renamer_new :: "string \<Rightarrow> GraphProto \<Rightarrow> string list \<Rightarrow> Renamer" where
  "Renamer_new prefix' graph emitted =
     \<lparr>rn_prefix = prefix', rn_bindings = Map.empty,
      rn_taken = emitted @ graph_value_names graph\<rparr>"

text \<open>
  Modelled from the spec: steps 2 and 3, a formal name is bound to an actual name; the
  actual name is from then on a name of the scope, which a minted name avoids.
\<close>

definition BindName :: "string \<Rightarrow> string \<Rightarrow> Renamer \<Rightarrow> Renamer" where
  "BindName formal_name actual_name r =
     r\<lparr>rn_bindings := (rn_bindings r)(formal_name \<mapsto> actual_name),
       rn_taken := actual_name # rn_taken r\<rparr>"

text \<open>
  Modelled from the spec: step 4 asks for a name "derived from the prefix and the
  initializer's original name, with collision-avoidance". The candidate is lengthened
  until it is none of the names to avoid.
\<close>

function make_unique :: "string list \<Rightarrow> string \<Rightarrow> string" where
  "make_unique taken candidate =
     (if candidate \<in> set taken then make_unique (remove1 candidate taken) (candidate @ ''_'')
      else candidate)"
  by pat_completeness auto
termination
  by (relation "measure (\<lambda>(taken, candidate). length taken)") (auto simp: length_remove1 dest: length_pos_if_in_set)

declare make_unique.simps [simp del]

text \<open>
  Modelled from the spec: step 4, "mint a new globally-unique name within the scope, bind
  the initializer's original name to that unique name".
\<close>

definition BindToUniqueName :: "string \<Rightarrow> Renamer \<Rightarrow> string \<times> Renamer" where
  "BindToUniqueName original_name r =
     (let unique_name = make_unique (rn_taken r) (rn_prefix r @ original_name)
      in (unique_name,
          r\<lparr>rn_bindings := (rn_bindings r)(original_name \<mapsto> unique_name),
            rn_taken := unique_name # rn_taken r\<rparr>))"

text \<open>
  Modelled from the spec: step 5, "bound names become their bound target; unbound names
  receive a deterministic prefixed rename (prefix + original name) and that mapping is
  memoized". The prefixed name is from then on a name of the scope.
\<close>

definition rename_one :: "string \<Rightarrow> Renamer \<Rightarrow> string \<times> Renamer" where
  "rename_one x r =
     (case rn_bindings r x of
        Some target \<Rightarrow> (target, r)
      | None \<Rightarrow>
          (rn_prefix r @ x,
           r\<lparr>rn_bindings := (rn_bindings r)(x \<mapsto> rn_prefix r @ x),
             rn_taken := (rn_prefix r @ x) # rn_taken r\<rparr>))"

fun rename_all :: "string list \<Rightarrow> Renamer \<Rightarrow> string list \<times> Renamer" where
  "rename_all [] r = ([], r)"
| "rename_all (x # xs) r =
     (let (y, r1) = rename_one x r; (ys, r2) = rename_all xs r1 in (y # ys, r2))"

definition RenameNode :: "NodeProto \<Rightarrow> Renamer \<Rightarrow> NodeProto \<times> Renamer" where
  "RenameNode node r =
     (let (ins, r1) = rename_all (np_input node) r;
          (outs, r2) = rename_all (np_output node) r1
      in (node\<lparr>np_input := ins, np_output := outs\<rparr>, r2))"

text \<open>
  Modelled from the spec: \<^verbatim>\<open>FunctionBuilder::Const\<close> is declared in
  \<^verbatim>\<open>onnx/defs/function.h\<close>, which is not among the sources. Step 4: "emit a
  constant-producing operation record with that name and the initializer's value into the
  function body".
\<close>

definition constant_node :: "string \<Rightarrow> TensorProto \<Rightarrow> NodeProto" where
  "constant_node name tensor =
     \<lparr>np_name = None, np_op_type = ''Constant'', np_domain = [], np_doc_string = [],
      np_input = [], np_output = [name],
      np_attribute = [\<lparr>ap_name = Some ''value'', ap_ref_attr_name = None,
                       ap_value = ATTR_TENSOR tensor\<rparr>]\<rparr>"

definition Const :: "string \<Rightarrow> TensorProto \<Rightarrow> FunctionProto \<Rightarrow> FunctionProto" where
  "Const name tensor funProto =
     funProto\<lparr>fp_node := fp_node funProto @ [constant_node name tensor]\<rparr>"

text \<open>
  Lines 181 to 196: the formal names of the graph are walked in order, and the iterator
  over the actual names moves on with each binding until it reaches the end.
\<close>

fun bind_formals :: "ValueInfoProto list \<Rightarrow> string list \<Rightarrow> Renamer \<Rightarrow> Renamer" where
  "bind_formals [] actuals r = r"
| "bind_formals (graph_io # rest) [] r = bind_formals rest [] r"
| "bind_formals (graph_io # rest) (actual # actuals) r =
     bind_formals rest actuals (BindName (vi_name graph_io) actual r)"

text \<open>One round of the loop of lines 199 to 202.\<close>

definition add_initializer :: "TensorProto \<Rightarrow> Renamer \<times> FunctionProto \<Rightarrow> Renamer \<times> FunctionProto" where
  "add_initializer initializer st =
     (let (const_name, renamer) = BindToUniqueName (tp_name initializer) (fst st)
      in (renamer, Const const_name initializer (snd st)))"

text \<open>One round of the loop of lines 205 to 214.\<close>

definition add_renamed_node :: "NodeProto \<Rightarrow> Renamer \<times> FunctionProto \<Rightarrow> Renamer \<times> FunctionProto" where
  "add_renamed_node node st =
     (let (new_node, renamer) = RenameNode node (fst st)
      in (renamer, (snd st)\<lparr>fp_node := fp_node (snd st) @ [new_node]\<rparr>))"

text \<open>
  The builder holds the function under construction; the call returns the builder, so the
  model returns the function as the call leaves it.
\<close>

definition AddInlinedCall ::
  "string list \<Rightarrow> GraphProto \<Rightarrow> string list \<Rightarrow> string \<Rightarrow> FunctionProto \<Rightarrow> FunctionProto" where
  "AddInlinedCall outputs graph inputs prefix' funProto =
     (let renamer = Renamer_new prefix' graph (function_value_names funProto);
          renamer = bind_formals (gp_input graph) inputs renamer;
          renamer = bind_formals (gp_output graph) outputs renamer;
          st = fold add_initializer (gp_initializer graph) (renamer, funProto);
          st = fold add_renamed_node (gp_node graph) st
      in snd st)"

text \<open>
  What the splice is expected to append, written out for the claims: the scope after lines
  178 to 196, the names minted for the initializers one after the other, the scope after
  all of them, and the body nodes renamed one after the other.
\<close>

definition splice_scope ::
  "string list \<Rightarrow> GraphProto \<Rightarrow> string list \<Rightarrow> string \<Rightarrow> FunctionProto \<Rightarrow> Renamer" where
  "splice_scope outputs graph inputs prefix' funProto =
     bind_formals (gp_output graph) outputs
       (bind_formals (gp_input graph) inputs
          (Renamer_new prefix' graph (function_value_names funProto)))"

fun minted_names :: "TensorProto list \<Rightarrow> Renamer \<Rightarrow> string list" where
  "minted_names [] r = []"
| "minted_names (initializer # rest) r =
     (let (unique_name, r1) = BindToUniqueName (tp_name initializer) r
      in unique_name # minted_names rest r1)"

fun scope_after_minting :: "TensorProto list \<Rightarrow> Renamer \<Rightarrow> Renamer" where
  "scope_after_minting [] r = r"
| "scope_after_minting (initializer # rest) r =
     scope_after_minting rest (snd (BindToUniqueName (tp_name initializer) r))"

fun renamed_nodes :: "NodeProto list \<Rightarrow> Renamer \<Rightarrow> NodeProto list" where
  "renamed_nodes [] r = []"
| "renamed_nodes (node # rest) r =
     (let (new_node, r1) = RenameNode node r in new_node # renamed_nodes rest r1)"

definition splice_minted ::
  "string list \<Rightarrow> GraphProto \<Rightarrow> string list \<Rightarrow> string \<Rightarrow> FunctionProto \<Rightarrow> string list" where
  "splice_minted outputs graph inputs prefix' funProto =
     minted_names (gp_initializer graph) (splice_scope outputs graph inputs prefix' funProto)"

definition splice_constants ::
  "string list \<Rightarrow> GraphProto \<Rightarrow> string list \<Rightarrow> string \<Rightarrow> FunctionProto \<Rightarrow> NodeProto list" where
  "splice_constants outputs graph inputs prefix' funProto =
     map2 constant_node (splice_minted outputs graph inputs prefix' funProto)
       (gp_initializer graph)"

definition splice_body ::
  "string list \<Rightarrow> GraphProto \<Rightarrow> string list \<Rightarrow> string \<Rightarrow> FunctionProto \<Rightarrow> NodeProto list" where
  "splice_body outputs graph inputs prefix' funProto =
     renamed_nodes (gp_node graph)
       (scope_after_minting (gp_initializer graph)
          (splice_scope outputs graph inputs prefix' funProto))"

section \<open>AxesInputToAttribute::adapt\<close>

text \<open>
  The graph of the version converter, as far as \<^verbatim>\<open>adapt\<close> reads it: a value knows its
  unique name, the kind of the node that produces it and the tensor held by the attribute
  \<^verbatim>\<open>value\<close> of that node; a node has its inputs and, once set, the attribute
  \<^verbatim>\<open>axes\<close>. Destroying a constant node or erasing an initializer that has no use left
  changes the graph around the node, which no claim reads; it is left out.
\<close>

datatype NodeKind = kConstant | kOtherKind

record Tensor =
  t_name :: string
  t_sizes :: "64 word list"
  t_int64s :: "64 word list"
  t_raw :: "8 word list"

record Value =
  v_uniqueName :: string
  v_node_kind :: NodeKind
  v_node_value :: Tensor

record Node =
  n_inputs :: "Value list"
  n_axes :: "64 word list option"

definition removeInput :: "nat \<Rightarrow> Node \<Rightarrow> Node" where
  "removeInput i node = node\<lparr>n_inputs := take i (n_inputs node) @ drop (Suc i) (n_inputs node)\<rparr>"

text \<open>
  Lines 42 and 43: \<open>n\<close> values of eight bytes each, read from the start of the buffer.
  How eight bytes make an \<^verbatim>\<open>int64_t\<close> depends on the machine: \<open>reinterpret\<close> is a
  parameter.
\<close>

definition raw_int64s :: "(8 word list \<Rightarrow> 64 word) \<Rightarrow> 8 word list \<Rightarrow> nat \<Rightarrow> 64 word list" where
  "raw_int64s reinterpret raw_data n =
     map (\<lambda>i. reinterpret (take 8 (drop (8 * i) raw_data))) [0 ..< n]"

text \<open>Lines 54 to 63: the first initializer that has the name of the input.\<close>

fun axes_from_initializers :: "Tensor list \<Rightarrow> Node \<Rightarrow> Value \<Rightarrow> Node" where
  "axes_from_initializers [] node const_val = node"
| "axes_from_initializers (initializer # rest) node const_val =
     (if t_name initializer = v_uniqueName const_val
      then removeInput 1 (node\<lparr>n_axes := Some (t_int64s initializer)\<rparr>)
      else axes_from_initializers rest node const_val)"

text \<open>Line 65.\<close>

definition assert_has_axes :: "Node \<Rightarrow> error + Node" where
  "assert_has_axes node =
     (if n_axes node \<noteq> None then Inr node
      else Inl (ONNX_ASSERTM ''No initializer or constant input to node found''))"

text \<open>
  \<^verbatim>\<open>Tensor::size_from_dim\<close> is not among the sources: it is the parameter
  \<open>size_from_dim\<close>. Reading \<^verbatim>\<open>inputs[1]\<close> of a node with fewer than two inputs, and
  building a vector from a range that leaves the buffer, have no defined behaviour.
\<close>

definition adapt ::
  "(Tensor \<Rightarrow> int \<Rightarrow> int) \<Rightarrow> (8 word list \<Rightarrow> 64 word) \<Rightarrow> Tensor list \<Rightarrow> Node \<Rightarrow> error + Node" where
  "adapt size_from_dim reinterpret initializers node =
     (case n_inputs node of
        v0 # const_val # rest \<Rightarrow>
          if v_node_kind const_val = kConstant then
            (let int64s = t_int64s (v_node_value const_val) in
             if int64s = [] then
               (let raw_data = t_raw (v_node_value const_val) in
                if \<not> (raw_data \<noteq> [] \<and> length raw_data mod 8 = 0)
                then Inl (ONNX_ASSERTM
                            ''Raw Data must be non-empty and size must be a multiple of 8'')
                else
                  (let n = size_from_dim (v_node_value const_val) 0 in
                   if 0 \<le> n \<and> 8 * nat n \<le> length raw_data
                   then assert_has_axes
                          (removeInput 1
                             (node\<lparr>n_axes := Some (raw_int64s reinterpret raw_data (nat n))\<rparr>))
                   else Inl OutOfBoundsRead))
             else assert_has_axes (removeInput 1 (node\<lparr>n_axes := Some int64s\<rparr>)))
          else assert_has_axes (axes_from_initializers initializers node const_val)
      | _ \<Rightarrow> Inl OutOfBoundsRead)"

section \<open>Example inputs\<close>

definition ex_func :: FunctionProto where
  "ex_func =
     \<lparr>fp_name = ''F'', fp_input = [''X'', ''Y''], fp_output = [''Z''],
      fp_node =
        [\<lparr>np_name = None, np_op_type = ''Add'', np_domain = [], np_doc_string = [],
          np_input = [''X'', ''Y''], np_output = [''T''], np_attribute = []\<rparr>,
         \<lparr>np_name = None, np_op_type = ''Relu'', np_domain = [], np_doc_string = [],
          np_input = [''T''], np_output = [''Z''], np_attribute = []\<rparr>],
      fp_opset_import = [\<lparr>os_domain = [], os_version = 14\<rparr>]\<rparr>"

definition ex_call :: "string list \<Rightarrow> string list \<Rightarrow> NodeProto" where
  "ex_call ins outs =
     \<lparr>np_name = Some ''n1'', np_op_type = ''F'', np_domain = [], np_doc_string = [],
      np_input = ins, np_output = outs, np_attribute = []\<rparr>"

definition ex_registry :: OpSchemaRegistry where
  "ex_registry op_type version domain =
     (if op_type = ''F'' \<and> version = 14 \<and> domain = [] then Some \<lparr>sc_attributes = []\<rparr> else None)"

definition ex_graph :: GraphProto where
  "ex_graph = \<lparr>gp_name = ''main'', gp_node = [], gp_initializer = [], gp_input = [], gp_output = []\<rparr>"

definition passthrough_func :: FunctionProto where
  "passthrough_func =
     \<lparr>fp_name = ''G'', fp_input = [''X''], fp_output = [''X'', ''Y''],
      fp_node =
        [\<lparr>np_name = None, np_op_type = ''Relu'', np_domain = [], np_doc_string = [],
          np_input = [''X''], np_output = [''Y''], np_attribute = []\<rparr>],
      fp_opset_import = [\<lparr>os_domain = [], os_version = 14\<rparr>]\<rparr>"

definition alpha_default :: AttributeProto where
  "alpha_default = \<lparr>ap_name = Some ''alpha'', ap_ref_attr_name = None, ap_value = ATTR_INT 7\<rparr>"

definition attr_registry :: OpSchemaRegistry where
  "attr_registry op_type version domain =
     (if op_type = ''F'' \<and> version = 14 \<and> domain = []
      then Some \<lparr>sc_attributes =
                   [(''alpha'', \<lparr>at_required = False, at_default_value = alpha_default\<rparr>)]\<rparr>
      else None)"

definition attr_ref :: "string \<Rightarrow> string \<Rightarrow> AttributeProto" where
  "attr_ref name ref = \<lparr>ap_name = Some name, ap_ref_attr_name = Some ref, ap_value = ATTR_UNDEFINED\<rparr>"

definition attr_func :: "AttributeProto list \<Rightarrow> FunctionProto" where
  "attr_func attrs =
     \<lparr>fp_name = ''F'', fp_input = [''X''], fp_output = [''Y''],
      fp_node =
        [\<lparr>np_name = None, np_op_type = ''LeakyRelu'', np_domain = [], np_doc_string = [],
          np_input = [''X''], np_output = [''Y''], np_attribute = attrs\<rparr>],
      fp_opset_import = [\<lparr>os_domain = [], os_version = 14\<rparr>]\<rparr>"

definition custom_domain_call :: "string list \<Rightarrow> NodeProto" where
  "custom_domain_call ins =
     \<lparr>np_name = Some ''n1'', np_op_type = ''F'', np_domain = ''custom'', np_doc_string = [],
      np_input = ins, np_output = [''c''], np_attribute = []\<rparr>"

definition two_import_func :: FunctionProto where
  "two_import_func =
     (attr_func [attr_ref ''slope'' ''alpha''])
       \<lparr>fp_opset_import := [\<lparr>os_domain = [], os_version = 13\<rparr>,
                            \<lparr>os_domain = ''other'', os_version = 2\<rparr>,
                            \<lparr>os_domain = [], os_version = 14\<rparr>,
                            \<lparr>os_domain = ''other'', os_version = 3\<rparr>]\<rparr>"

definition versioned_registry :: OpSchemaRegistry where
  "versioned_registry op_type version domain =
     (if op_type = ''F'' \<and> domain = [] \<and> version = 13
      then Some \<lparr>sc_attributes =
             [(''alpha'', \<lparr>at_required = False,
                           at_default_value = alpha_default\<lparr>ap_value := ATTR_INT 1\<rparr>\<rparr>)]\<rparr>
      else attr_registry op_type version domain)"

definition unnamed_call :: NodeProto where
  "unnamed_call = (ex_call [''d'', ''e''] [''f''])\<lparr>np_name := None\<rparr>"

definition le_int64 :: "8 word list \<Rightarrow> 64 word" where
  "le_int64 bytes = foldr (\<lambda>b acc. ucast b + 256 * acc) bytes 0"

definition elem_count :: "Tensor \<Rightarrow> int \<Rightarrow> int" where
  "elem_count t dim = foldr (\<lambda>s acc. sint s * acc) (drop (nat dim) (t_sizes t)) 1"

definition raw_tensor :: "8 word list \<Rightarrow> Tensor" where
  "raw_tensor bytes = \<lparr>t_name = ''axes'', t_sizes = [2], t_int64s = [], t_raw = bytes\<rparr>"

definition data_value :: Value where
  "data_value = \<lparr>v_uniqueName = ''data'', v_node_kind = kOtherKind,
                  v_node_value = raw_tensor []\<rparr>"

definition axes_value :: "8 word list \<Rightarrow> Value" where
  "axes_value bytes = \<lparr>v_uniqueName = ''axes'', v_node_kind = kConstant,
                        v_node_value = raw_tensor bytes\<rparr>"

definition reduce_node :: "8 word list \<Rightarrow> Node" where
  "reduce_node bytes = \<lparr>n_inputs = [data_value, axes_value bytes], n_axes = None\<rparr>"

definition weight_tensor :: "string \<Rightarrow> TensorProto" where
  "weight_tensor name = \<lparr>tp_name = name, tp_dims = [1], tp_int64_data = [5], tp_raw_data = []\<rparr>"

definition matmul_graph :: GraphProto where
  "matmul_graph =
     \<lparr>gp_name = ''g'',
      gp_node =
        [\<lparr>np_name = None, np_op_type = ''MatMul'', np_domain = [], np_doc_string = [],
          np_input = [''X'', ''W''], np_output = [''T''], np_attribute = []\<rparr>,
         \<lparr>np_name = None, np_op_type = ''Add'', np_domain = [], np_doc_string = [],
          np_input = [''T'', ''B''], np_output = [''Y''], np_attribute = []\<rparr>],
      gp_initializer = [weight_tensor ''W'', weight_tensor ''B''],
      gp_input = [\<lparr>vi_name = ''X''\<rparr>, \<lparr>vi_name = ''W''\<rparr>],
      gp_output = [\<lparr>vi_name = ''Y''\<rparr>]\<rparr>"

definition empty_function :: FunctionProto where
  "empty_function =
     \<lparr>fp_name = ''H'', fp_input = [''input0''], fp_output = [''output0''],
      fp_node =
        [\<lparr>np_name = None, np_op_type = ''Identity'', np_domain = [], np_doc_string = [],
          np_input = [''input0''], np_output = [''kept''], np_attribute = []\<rparr>],
      fp_opset_import = []\<rparr>"

definition busy_graph :: GraphProto where
  "busy_graph =
     \<lparr>gp_name = ''main'',
      gp_node =
        [\<lparr>np_name = Some ''n1'', np_op_type = ''F'', np_domain = [], np_doc_string = [],
          np_input = [''a'', ''b''], np_output = [''c''], np_attribute = []\<rparr>],
      gp_initializer = [weight_tensor ''a''],
      gp_input = [\<lparr>vi_name = ''b''\<rparr>],
      gp_output = [\<lparr>vi_name = ''c''\<rparr>]\<rparr>"

definition dup_func :: FunctionProto where
  "dup_func =
     \<lparr>fp_name = ''D'', fp_input = [''X'', ''X''], fp_output = [''Y''],
      fp_node =
        [\<lparr>np_name = None, np_op_type = ''Add'', np_domain = [], np_doc_string = [],
          np_input = [''X'', ''X''], np_output = [''Y''], np_attribute = []\<rparr>],
      fp_opset_import = [\<lparr>os_domain = [], os_version = 14\<rparr>]\<rparr>"

definition anonymous_call :: "string list \<Rightarrow> string list \<Rightarrow> NodeProto" where
  "anonymous_call ins outs = (ex_call ins outs)\<lparr>np_name := None\<rparr>"


definition sixteen_bytes :: "8 word list" where
  "sixteen_bytes = [1, 0, 0, 0, 0, 0, 0, 0, 0, 1, 0, 0, 0, 0, 0, 0]"

definition three_axes_tensor :: Tensor where
  "three_axes_tensor = (raw_tensor sixteen_bytes)\<lparr>t_sizes := [3]\<rparr>"

definition short_buffer_node :: Node where
  "short_buffer_node =
     \<lparr>n_inputs = [data_value,
                  \<lparr>v_uniqueName = ''axes'', v_node_kind = kConstant,
                    v_node_value = three_axes_tensor\<rparr>],
      n_axes = None\<rparr>"

section \<open>Properties of the binding loops\<close>

lemma bind_input_step_Inl: "fold (bind_input_step nn fs as) xs (Inl e) = Inl e"
  by (induction xs) (simp_all add: bind_input_step_def)

lemma bind_output_step_Inl: "fold (bind_output_step nn fs as) xs (Inl e) = Inl e"
  by (induction xs) (simp_all add: bind_output_step_def)

lemma upt_split_at: "k < n \<Longrightarrow> [0 ..< n] = [0 ..< k] @ k # [Suc k ..< n]"
  by (metis less_imp_le_nat upt_add_eq_append upt_conv_Cons le_add_diff_inverse zero_le)

lemma map_upds_take: "m(take (length as) fs [\<mapsto>] as) = m(fs [\<mapsto>] as)"
proof -
  have "zip (take (length as) fs) as = zip fs as"
    using take_zip [of "length as" fs as] by simp
  then show ?thesis by (simp add: map_upds_def)
qed

lemma map_upds_nth_same_length:
  "length xs = length ys \<Longrightarrow> distinct xs \<Longrightarrow> i < length ys \<Longrightarrow>
   (m(xs [\<mapsto>] ys)) (xs ! i) = Some (ys ! i)"
proof (induction xs ys arbitrary: m i rule: list_induct2)
  case Nil
  then show ?case by simp
next
  case (Cons x xs y ys)
  then show ?case by (cases i) auto
qed

lemma map_upds_nth:
  assumes "distinct (take (length as) fs)" "length as \<le> length fs" "i < length as"
  shows "(m(fs [\<mapsto>] as)) (fs ! i) = Some (as ! i)"
proof -
  have "(m(take (length as) fs [\<mapsto>] as)) (take (length as) fs ! i) = Some (as ! i)"
    using assms by (intro map_upds_nth_same_length) simp_all
  then show ?thesis using assms by (simp add: map_upds_take)
qed

lemma bind_inputs_prefix:
  "n \<le> length fs \<Longrightarrow> n \<le> length as \<Longrightarrow>
   fold (bind_input_step nn fs as) [0 ..< n] (Inr m) = Inr (m(take n fs [\<mapsto>] as))"
proof (induction n)
  case 0
  then show ?case by simp
next
  case (Suc n)
  then have "fold (bind_input_step nn fs as) [0 ..< Suc n] (Inr m)
      = bind_input_step nn fs as n (Inr (m(take n fs [\<mapsto>] as)))"
    by simp
  also have "\<dots> = Inr ((m(take n fs [\<mapsto>] as))(fs ! n \<mapsto> as ! n))"
    using Suc.prems by (simp add: bind_input_step_def)
  also have "(m(take n fs [\<mapsto>] as))(fs ! n \<mapsto> as ! n) = m(take (Suc n) fs [\<mapsto>] as)"
    using Suc.prems by (simp add: take_Suc_conv_app_nth)
  finally show ?case .
qed

lemma bind_inputs_in_range:
  assumes le: "length as \<le> length fs"
  shows "bind_inputs nn fs as m = Inr (m(fs [\<mapsto>] as))"
  using bind_inputs_prefix [of "length as" fs as nn m] le
  by (simp add: bind_inputs_def map_upds_take)

lemma bind_inputs_out_of_range:
  assumes "length fs < length as"
  shows "bind_inputs nn fs as m = Inl (input_out_of_bounds nn)"
proof -
  have "fold (bind_input_step nn fs as) [0 ..< length fs] (Inr m)
          = Inr (m(take (length fs) fs [\<mapsto>] as))"
    using assms by (intro bind_inputs_prefix) simp_all
  moreover have "bind_input_step nn fs as (length fs) (Inr m') = Inl (input_out_of_bounds nn)" for m'
    by (simp add: bind_input_step_def)
  ultimately show ?thesis
    unfolding bind_inputs_def upt_split_at [OF assms]
    by (simp add: bind_input_step_Inl)
qed

lemma bind_outputs_prefix:
  "n \<le> length fs \<Longrightarrow> n \<le> length as \<Longrightarrow>
   \<exists>m'. fold (bind_output_step nn fs as) [0 ..< n] (Inr m) = Inr m'
      \<and> (\<forall>z. (\<forall>j<n. fs ! j = z \<longrightarrow> as ! j = []) \<longrightarrow> m' z = m z)"
proof (induction n)
  case 0
  then show ?case by simp
next
  case (Suc n)
  then obtain m' where m': "fold (bind_output_step nn fs as) [0 ..< n] (Inr m) = Inr m'"
    and keep: "\<forall>z. (\<forall>j<n. fs ! j = z \<longrightarrow> as ! j = []) \<longrightarrow> m' z = m z"
    by auto
  show ?case
  proof (cases "as ! n = []")
    case True
    then have "fold (bind_output_step nn fs as) [0 ..< Suc n] (Inr m) = Inr m'"
      using m' Suc.prems by (simp add: bind_output_step_def)
    then show ?thesis using keep by (auto simp: less_Suc_eq)
  next
    case False
    then have "fold (bind_output_step nn fs as) [0 ..< Suc n] (Inr m)
                 = Inr (m'(fs ! n \<mapsto> as ! n))"
      using m' Suc.prems by (simp add: bind_output_step_def)
    then show ?thesis using keep False by (auto simp: less_Suc_eq)
  qed
qed

lemma bind_outputs_in_range:
  assumes "length as \<le> length fs"
  shows "\<exists>m'. bind_outputs nn fs as m = Inr m'
      \<and> (\<forall>z. (\<forall>j<length as. fs ! j = z \<longrightarrow> as ! j = []) \<longrightarrow> m' z = m z)"
  unfolding bind_outputs_def using bind_outputs_prefix [of "length as" fs as nn m] assms by simp

lemma bind_outputs_out_of_range:
  assumes "length fs < length as"
  shows "bind_outputs nn fs as m = Inl (output_out_of_bounds nn)"
proof -
  obtain m' where "fold (bind_output_step nn fs as) [0 ..< length fs] (Inr m) = Inr m'"
    using bind_outputs_prefix [of "length fs" fs as nn m] assms by auto
  moreover have "bind_output_step nn fs as (length fs) (Inr m') = Inl (output_out_of_bounds nn)"
    by (simp add: bind_output_step_def)
  ultimately show ?thesis
    unfolding bind_outputs_def upt_split_at [OF assms]
    by (simp add: bind_output_step_Inl)
qed

lemma prologue_inputs_out_of_range:
  assumes "length (fp_input func) < length (np_input node)"
  shows "expand_prologue reg node address func node_prefix
           = Inl (input_out_of_bounds (resolved_node_name node address func node_prefix))"
  using assms by (simp add: expand_prologue_def bind_inputs_out_of_range)

lemma prologue_outputs_out_of_range:
  assumes "length (np_input node) \<le> length (fp_input func)"
    and "length (fp_output func) < length (np_output node)"
  shows "expand_prologue reg node address func node_prefix
           = Inl (output_out_of_bounds (resolved_node_name node address func node_prefix))"
  using assms
  by (simp add: expand_prologue_def bind_inputs_in_range bind_outputs_out_of_range)

lemma bind_outputs_error:
  "bind_outputs nn fs as m = Inl e \<Longrightarrow> e = output_out_of_bounds nn"
  using bind_outputs_in_range [of as fs nn m] bind_outputs_out_of_range [of fs as nn m]
  by (cases "length as \<le> length fs") auto

lemma prologue_inputs_in_range:
  assumes "length (np_input node) \<le> length (fp_input func)"
  shows "expand_prologue reg node address func node_prefix
           \<noteq> Inl (input_out_of_bounds (resolved_node_name node address func node_prefix))"
proof -
  have "output_out_of_bounds nn \<noteq> input_out_of_bounds nn" for nn
    by (simp add: input_out_of_bounds_def output_out_of_bounds_def)
  moreover have "ONNX_THROW (no_opset_import_message d) \<noteq> input_out_of_bounds nn" for d nn
    by (simp add: input_out_of_bounds_def no_opset_import_message_def)
  moreover have "NullSchemaDereference \<noteq> input_out_of_bounds nn" for nn
    by (simp add: input_out_of_bounds_def)
  ultimately show ?thesis
    using assms
    by (auto simp: expand_prologue_def bind_inputs_in_range Let_def
        split: sum.splits option.splits if_splits dest!: bind_outputs_error)
qed

section \<open>Claims about FunctionExpandHelper\<close>

lemma ex_sizes:
  "fp_input ex_func = [''X'', ''Y'']" "fp_output ex_func = [''Z'']"
  "np_input (ex_call ins outs) = ins" "np_output (ex_call ins outs) = outs"
  "np_name (ex_call ins outs) = Some ''n1''"
  by (simp_all add: ex_func_def ex_call_def)

lemma map_upds_nth_last_same_length:
  "length xs = length ys \<Longrightarrow> i < length ys \<Longrightarrow>
   (\<forall>j. i < j \<and> j < length ys \<longrightarrow> xs ! j \<noteq> xs ! i) \<Longrightarrow>
   (m(xs [\<mapsto>] ys)) (xs ! i) = Some (ys ! i)"
proof (induction xs ys arbitrary: m i rule: list_induct2)
  case Nil
  then show ?case by simp
next
  case (Cons x xs y ys)
  show ?case
  proof (cases i)
    case 0
    have "x \<notin> set xs"
    proof
      assume "x \<in> set xs"
      then obtain j where "j < length xs" "xs ! j = x" by (auto simp: in_set_conv_nth)
      then show False using Cons.prems(2) [rule_format, of "Suc j"] 0 Cons.hyps by simp
    qed
    then show ?thesis using 0 by simp
  next
    case (Suc k)
    have later: "\<forall>j. k < j \<and> j < length ys \<longrightarrow> xs ! j \<noteq> xs ! k"
    proof (intro allI impI)
      fix j assume "k < j \<and> j < length ys"
      then show "xs ! j \<noteq> xs ! k"
        using Cons.prems(2) [rule_format, of "Suc j"] Suc by simp
    qed
    have k: "k < length ys" using Cons.prems(1) Suc by simp
    have "((m(x \<mapsto> y))(xs [\<mapsto>] ys)) (xs ! k) = Some (ys ! k)"
      using k later by (rule Cons.IH)
    then show ?thesis
      using Suc by simp
  qed
qed

lemma map_upds_nth_last:
  assumes "length as \<le> length fs" "i < length as"
    and "\<forall>j. i < j \<and> j < length as \<longrightarrow> fs ! j \<noteq> fs ! i"
  shows "(m(fs [\<mapsto>] as)) (fs ! i) = Some (as ! i)"
proof -
  have "(m(take (length as) fs [\<mapsto>] as)) (take (length as) fs ! i) = Some (as ! i)"
    using assms by (intro map_upds_nth_last_same_length) simp_all
  then show ?thesis using assms by (simp add: map_upds_take)
qed

lemma resolved_node_name_eq:
  "resolved_node_name node address func node_prefix
     = (case np_name node of
          Some n \<Rightarrow> n
        | None \<Rightarrow> fp_name func @ (if node_prefix = [] then address else node_prefix))"
  by (simp add: resolved_node_name_def Let_def)

text \<open>
  Claim C2, as stated, fails: \<open>dup_func\<close> has the formal input name \<open>X\<close> twice. A call
  site with the two inputs \<open>a\<close> and \<open>b\<close> is within the formal arity, and the input loop
  succeeds, but the second binding overwrites the first: the map holds one binding, from
  \<open>X\<close> to \<open>b\<close>, and not two, and both inputs of the cloned body node become \<open>b\<close>.
\<close>

theorem C2_counterexample:
  "length (np_input (ex_call [''a'', ''b''] [''c''])) = 2
   \<and> length (np_input (ex_call [''a'', ''b''] [''c''])) \<le> length (fp_input dup_func)
   \<and> bind_inputs ''n1'' (fp_input dup_func) (np_input (ex_call [''a'', ''b''] [''c'']))
        Map.empty = Inr [''X'' \<mapsto> ''b'']
   \<and> card (dom [''X'' \<mapsto> ''b'']) = 1
   \<and> fst (FunctionExpandHelper ex_registry (ex_call [''a'', ''b''] [''c'']) ''0x1''
             dup_func ex_graph []) = None
   \<and> map np_input
        (gp_node (snd (FunctionExpandHelper ex_registry (ex_call [''a'', ''b''] [''c'']) ''0x1''
                         dup_func ex_graph [])))
       = [ [''b'', ''b''] ]"
proof -
  have "bind_inputs ''n1'' (fp_input dup_func) (np_input (ex_call [''a'', ''b''] [''c'']))
          Map.empty = Inr [''X'' \<mapsto> ''b'']"
    by (simp add: bind_inputs_in_range dup_func_def ex_call_def)
  moreover have "fst (FunctionExpandHelper ex_registry (ex_call [''a'', ''b''] [''c'']) ''0x1''
             dup_func ex_graph []) = None
   \<and> map np_input
        (gp_node (snd (FunctionExpandHelper ex_registry (ex_call [''a'', ''b''] [''c'']) ''0x1''
                         dup_func ex_graph [])))
       = [ [''b'', ''b''] ]"
    by code_simp
  ultimately show ?thesis
    by (simp add: dup_func_def ex_call_def)
qed

text \<open>
  Claim C2, amended. \<open>nn\<close> is the name under which the call site is expanded: its own
  name when it has one, otherwise the name of the function followed by the prefix that
  the caller passed or, when that is empty, by the printed address of the node. A call
  site with \<open>k\<close> inputs, \<open>k\<close> at most the number of formal inputs: the input loop
  succeeds and makes the \<open>k\<close> bindings from formal input \<open>i\<close> to actual input \<open>i\<close> in
  order, so the expansion does not fail with the out-of-bounds error for inputs; the bound
  names are the first \<open>k\<close> formal names, a formal name that is not repeated at a later
  position is bound to the actual input of its position, and where the first \<open>k\<close>
  formal names are pairwise different the map has exactly \<open>k\<close> bindings. A call site
  with more inputs than formal inputs fails with
  \<^verbatim>\<open>Input for function node nn is out of bounds\<close>, and one whose inputs fit but whose
  outputs outnumber the formal outputs fails with
  \<^verbatim>\<open>Output for function node nn is out of bounds\<close>; the destination graph is as it
  was.
\<close>

theorem C2_positional_bindings:
  assumes name: "nn = (case np_name node of
                         Some n \<Rightarrow> n
                       | None \<Rightarrow> fp_name func
                                  @ (if node_prefix = [] then address else node_prefix))"
  shows
  "(length (np_input node) \<le> length (fp_input func) \<longrightarrow>
      bind_inputs nn (fp_input func) (np_input node) Map.empty
        = Inr (Map.empty(fp_input func [\<mapsto>] np_input node))
      \<and> fst (FunctionExpandHelper reg node address func g node_prefix)
          \<noteq> Some (ONNX_THROW (''Input for function node '' @ nn @ '' is out of bounds''))
      \<and> dom (Map.empty(fp_input func [\<mapsto>] np_input node))
          = set (take (length (np_input node)) (fp_input func))
      \<and> (\<forall>i < length (np_input node).
            (\<forall>j. i < j \<and> j < length (np_input node)
                   \<longrightarrow> fp_input func ! j \<noteq> fp_input func ! i) \<longrightarrow>
            (Map.empty(fp_input func [\<mapsto>] np_input node)) (fp_input func ! i)
              = Some (np_input node ! i))
      \<and> (distinct (take (length (np_input node)) (fp_input func)) \<longrightarrow>
           card (dom (Map.empty(fp_input func [\<mapsto>] np_input node)))
             = length (np_input node)))
   \<and> (length (fp_input func) < length (np_input node) \<longrightarrow>
        FunctionExpandHelper reg node address func g node_prefix
          = (Some (ONNX_THROW (''Input for function node '' @ nn @ '' is out of bounds'')), g))
   \<and> (length (np_input node) \<le> length (fp_input func)
        \<and> length (fp_output func) < length (np_output node) \<longrightarrow>
        FunctionExpandHelper reg node address func g node_prefix
          = (Some (ONNX_THROW (''Output for function node '' @ nn @ '' is out of bounds'')), g))"
proof -
  have nn: "resolved_node_name node address func node_prefix = nn"
    by (simp only: name resolved_node_name_eq)
  show ?thesis
  proof (intro conjI impI allI)
    assume le: "length (np_input node) \<le> length (fp_input func)"
    show "bind_inputs nn (fp_input func) (np_input node) Map.empty
          = Inr (Map.empty(fp_input func [\<mapsto>] np_input node))"
      using le by (rule bind_inputs_in_range)
    show "fst (FunctionExpandHelper reg node address func g node_prefix)
            \<noteq> Some (ONNX_THROW (''Input for function node '' @ nn @ '' is out of bounds''))"
      using prologue_inputs_in_range [OF le, of reg address node_prefix]
      by (auto simp: FunctionExpandHelper_def input_out_of_bounds_def nn split: sum.splits)
    show "dom (Map.empty(fp_input func [\<mapsto>] np_input node))
            = set (take (length (np_input node)) (fp_input func))"
      by simp
  next
    fix i
    assume le: "length (np_input node) \<le> length (fp_input func)"
      and i: "i < length (np_input node)"
      and last: "\<forall>j. i < j \<and> j < length (np_input node)
                   \<longrightarrow> fp_input func ! j \<noteq> fp_input func ! i"
    show "(Map.empty(fp_input func [\<mapsto>] np_input node)) (fp_input func ! i)
              = Some (np_input node ! i)"
      using le i last by (rule map_upds_nth_last)
  next
    assume le: "length (np_input node) \<le> length (fp_input func)"
      and d: "distinct (take (length (np_input node)) (fp_input func))"
    show "card (dom (Map.empty(fp_input func [\<mapsto>] np_input node))) = length (np_input node)"
      using le d by (simp add: distinct_card)
  next
    assume "length (fp_input func) < length (np_input node)"
    then show "FunctionExpandHelper reg node address func g node_prefix
            = (Some (ONNX_THROW (''Input for function node '' @ nn @ '' is out of bounds'')), g)"
      by (simp add: FunctionExpandHelper_def prologue_inputs_out_of_range
          input_out_of_bounds_def nn)
  next
    assume "length (np_input node) \<le> length (fp_input func)
          \<and> length (fp_output func) < length (np_output node)"
    then show "FunctionExpandHelper reg node address func g node_prefix
            = (Some (ONNX_THROW (''Output for function node '' @ nn @ '' is out of bounds'')), g)"
      by (simp add: FunctionExpandHelper_def prologue_outputs_out_of_range
          output_out_of_bounds_def nn)
  qed
qed

theorem C2_positional_bindings_witness:
  "np_name (ex_call [''a'', ''b''] [''c'']) = Some ''n1''
   \<and> bind_inputs ''n1'' (fp_input ex_func) [''a'', ''b''] Map.empty
        = Inr [''X'' \<mapsto> ''a'', ''Y'' \<mapsto> ''b'']
   \<and> card (dom [''X'' \<mapsto> ''a'', ''Y'' \<mapsto> ''b'']) = 2
   \<and> FunctionExpandHelper ex_registry (ex_call [''a'', ''b'', ''c''] [''c'']) ''0x1'' ex_func
        ex_graph []
        = (Some (ONNX_THROW ''Input for function node n1 is out of bounds''), ex_graph)
   \<and> FunctionExpandHelper ex_registry (ex_call [''a'', ''b''] [''c'', ''d'']) ''0x1'' ex_func
        ex_graph []
        = (Some (ONNX_THROW ''Output for function node n1 is out of bounds''), ex_graph)
   \<and> np_name (anonymous_call [''a'', ''b'', ''c''] [''c'']) = None
   \<and> FunctionExpandHelper ex_registry (anonymous_call [''a'', ''b'', ''c''] [''c'']) ''0x1''
        ex_func ex_graph []
        = (Some (ONNX_THROW ''Input for function node F0x1 is out of bounds''), ex_graph)
   \<and> FunctionExpandHelper ex_registry (anonymous_call [''a'', ''b''] [''c'', ''d'']) ''0x1''
        ex_func ex_graph ''_7''
        = (Some (ONNX_THROW ''Output for function node F_7 is out of bounds''), ex_graph)"
proof -
  have named: "''n1'' = (case np_name (ex_call ins outs) of
                         Some n \<Rightarrow> n
                       | None \<Rightarrow> fp_name ex_func @ (if [] = [] then ''0x1'' else []))"
    for ins outs
    by (simp add: ex_call_def)
  have anon1: "''F0x1'' = (case np_name (anonymous_call ins outs) of
                         Some n \<Rightarrow> n
                       | None \<Rightarrow> fp_name ex_func @ (if [] = [] then ''0x1'' else []))"
    for ins outs
    by (simp add: anonymous_call_def ex_call_def ex_func_def)
  have anon2: "''F_7'' = (case np_name (anonymous_call ins outs) of
                         Some n \<Rightarrow> n
                       | None \<Rightarrow> fp_name ex_func @ (if ''_7'' = [] then ''0x1'' else ''_7''))"
    for ins outs
    by (simp add: anonymous_call_def ex_call_def ex_func_def)
  have sizes: "np_input (anonymous_call ins outs) = ins" "np_output (anonymous_call ins outs) = outs"
    "np_name (anonymous_call ins outs) = None" for ins outs
    by (simp_all add: anonymous_call_def ex_call_def)
  have 1: "bind_inputs ''n1'' (fp_input ex_func) [''a'', ''b''] Map.empty
        = Inr [''X'' \<mapsto> ''a'', ''Y'' \<mapsto> ''b'']
      \<and> card (dom [''X'' \<mapsto> ''a'', ''Y'' \<mapsto> ''b'']) = 2"
    using C2_positional_bindings [OF named, of "[''a'', ''b'']" "[''c'']" ex_registry ex_graph,
        THEN conjunct1]
    by (simp add: ex_sizes)
  have 2: "FunctionExpandHelper ex_registry (ex_call [''a'', ''b'', ''c''] [''c'']) ''0x1'' ex_func
        ex_graph []
        = (Some (ONNX_THROW ''Input for function node n1 is out of bounds''), ex_graph)"
    using C2_positional_bindings [OF named, of "[''a'', ''b'', ''c'']" "[''c'']" ex_registry
        ex_graph, THEN conjunct2, THEN conjunct1]
    by (simp add: ex_sizes)
  have 3: "FunctionExpandHelper ex_registry (ex_call [''a'', ''b''] [''c'', ''d'']) ''0x1'' ex_func
        ex_graph []
        = (Some (ONNX_THROW ''Output for function node n1 is out of bounds''), ex_graph)"
    using C2_positional_bindings [OF named, of "[''a'', ''b'']" "[''c'', ''d'']" ex_registry
        ex_graph, THEN conjunct2, THEN conjunct2]
    by (simp add: ex_sizes)
  have 4: "FunctionExpandHelper ex_registry (anonymous_call [''a'', ''b'', ''c''] [''c'']) ''0x1''
        ex_func ex_graph []
        = (Some (ONNX_THROW ''Input for function node F0x1 is out of bounds''), ex_graph)"
    using C2_positional_bindings [OF anon1, of "[''a'', ''b'', ''c'']" "[''c'']" ex_registry
        ex_graph, THEN conjunct2, THEN conjunct1]
    by (simp add: ex_sizes sizes)
  have 5: "FunctionExpandHelper ex_registry (anonymous_call [''a'', ''b''] [''c'', ''d'']) ''0x1''
        ex_func ex_graph ''_7''
        = (Some (ONNX_THROW ''Output for function node F_7 is out of bounds''), ex_graph)"
    using C2_positional_bindings [OF anon2, of "[''a'', ''b'']" "[''c'', ''d'']" ex_registry
        ex_graph, THEN conjunct2, THEN conjunct2]
    by (simp add: ex_sizes sizes)
  show ?thesis using 1 2 3 4 5 by (simp add: ex_sizes sizes)
qed

lemma prologue_Inr_D:
  assumes "expand_prologue reg node address func node_prefix = Inr (nn, io, am)"
  shows "nn = resolved_node_name node address func node_prefix"
    and "length (np_input node) \<le> length (fp_input func)"
    and "length (np_output node) \<le> length (fp_output func)"
    and "bind_outputs nn (fp_output func) (np_output node)
           (Map.empty(fp_input func [\<mapsto>] np_input node)) = Inr io"
    and "find_domain_version (fp_opset_import func) (np_domain node) \<noteq> - 1"
    and "\<exists>schema. reg (np_op_type node)
             (find_domain_version (fp_opset_import func) (np_domain node)) (np_domain node)
               = Some schema
           \<and> am = add_default_attrs (sc_attributes schema) (node_attr_map node)"
proof -
  show 1: "length (np_input node) \<le> length (fp_input func)"
    using assms prologue_inputs_out_of_range [of func node reg address node_prefix]
    by (cases "length (np_input node) \<le> length (fp_input func)") auto
  show 2: "length (np_output node) \<le> length (fp_output func)"
    using assms 1 prologue_outputs_out_of_range [of node func reg address node_prefix]
    by (cases "length (np_output node) \<le> length (fp_output func)") auto
  from assms 1 show "nn = resolved_node_name node address func node_prefix"
    by (auto simp: expand_prologue_def Let_def bind_inputs_in_range
        split: sum.splits if_splits option.splits)
  from assms 1 show "bind_outputs nn (fp_output func) (np_output node)
           (Map.empty(fp_input func [\<mapsto>] np_input node)) = Inr io"
    by (auto simp: expand_prologue_def Let_def bind_inputs_in_range
        split: sum.splits if_splits option.splits)
  from assms 1 show "find_domain_version (fp_opset_import func) (np_domain node) \<noteq> - 1"
    by (auto simp: expand_prologue_def Let_def bind_inputs_in_range
        split: sum.splits if_splits option.splits)
  from assms 1 show "\<exists>schema. reg (np_op_type node)
             (find_domain_version (fp_opset_import func) (np_domain node)) (np_domain node)
               = Some schema
           \<and> am = add_default_attrs (sc_attributes schema) (node_attr_map node)"
    by (auto simp: expand_prologue_def Let_def bind_inputs_in_range
        split: sum.splits if_splits option.splits)
qed

lemma expand_success_D:
  assumes "FunctionExpandHelper reg node address func g node_prefix = (None, g')"
  shows "\<exists>nn io am. expand_prologue reg node address func node_prefix = Inr (nn, io, am)
           \<and> g' = g\<lparr>gp_node := gp_node g @ map (expand_node io am nn) (fp_node func)\<rparr>"
  using assms by (auto simp: FunctionExpandHelper_def split: sum.splits)

lemma expand_node_fields [simp]:
  "np_input (expand_node io am nn fn) = map (rename_value io nn) (np_input fn)"
  "np_output (expand_node io am nn fn) = map (rename_value io nn) (np_output fn)"
  "np_attribute (expand_node io am nn fn) = concat (map (expand_attribute am) (np_attribute fn))"
  "np_op_type (expand_node io am nn fn) = np_op_type fn"
  "np_domain (expand_node io am nn fn) = np_domain fn"
  "np_name (expand_node io am nn fn) = np_name fn"
  "np_doc_string (expand_node io am nn fn) = np_doc_string fn"
  by (simp_all add: expand_node_def)

lemma unbound_after_binding:
  assumes pro: "expand_prologue reg node address func node_prefix = Inr (nn, io, am)"
    and not_input: "z \<notin> set (take (length (np_input node)) (fp_input func))"
    and not_output: "\<forall>j < length (np_output node). fp_output func ! j = z \<longrightarrow> np_output node ! j = []"
  shows "io z = None"
proof -
  have start: "(Map.empty(fp_input func [\<mapsto>] np_input node)) z = None"
  proof -
    have "z \<notin> dom (Map.empty(fp_input func [\<mapsto>] np_input node))"
      using not_input by simp
    then show ?thesis by (simp only: domIff not_not)
  qed
  obtain m' where "bind_outputs nn (fp_output func) (np_output node)
           (Map.empty(fp_input func [\<mapsto>] np_input node)) = Inr m'"
    and keep: "\<forall>z. (\<forall>j<length (np_output node). fp_output func ! j = z \<longrightarrow> np_output node ! j = [])
                 \<longrightarrow> m' z = (Map.empty(fp_input func [\<mapsto>] np_input node)) z"
    using bind_outputs_in_range [OF prologue_Inr_D(3) [OF pro] ] by blast
  then have "m' = io" using prologue_Inr_D(4) [OF pro] by simp
  then show ?thesis using keep not_output start by simp
qed

section \<open>Claim C3\<close>

text \<open>
  Claim C3, as stated, fails: the function \<open>passthrough_func\<close> has the formal name
  \<open>X\<close> both as its input and as its first output. The call site gives the input the
  actual name \<open>a\<close> and leaves the first output empty. The expansion succeeds, and the
  occurrence of \<open>X\<close> in the body becomes \<open>a\<close>, which is not a generated internal name.
\<close>

theorem C3_counterexample:
  "np_output (ex_call [''a''] ['''', ''c'']) ! 0 = []
   \<and> fp_output passthrough_func ! 0 = ''X''
   \<and> np_input (fp_node passthrough_func ! 0) = [''X'']
   \<and> fst (FunctionExpandHelper ex_registry (ex_call [''a''] ['''', ''c'']) ''0x1''
            passthrough_func ex_graph []) = None
   \<and> np_input (gp_node (snd (FunctionExpandHelper ex_registry (ex_call [''a''] ['''', ''c''])
                                 ''0x1'' passthrough_func ex_graph [])) ! 0) = [''a'']
   \<and> ''a'' \<noteq> InteralTensorNameGenerator ''n1'' ''X''
   \<and> ''a'' \<notin> set (generated_internal_names ex_registry (ex_call [''a''] ['''', ''c'']) ''0x1''
                    passthrough_func [])"
  by code_simp

text \<open>
  Claim C3, amended. The expansion succeeds, the actual output at index \<open>i\<close> is empty,
  and the formal output name at index \<open>i\<close> is bound at no other position: it is none of
  the formal inputs that received an actual input, and every output position that has
  the same formal name has an empty actual name too. Then each body node is cloned with
  as many inputs and outputs as it had, and every occurrence of that formal name among
  them is the name that the generator makes from the name of the call site and the formal
  name.
\<close>

theorem C3_empty_output_internal:
  assumes ok: "FunctionExpandHelper reg node address func g node_prefix = (None, g')"
    and i: "i < length (np_output node)"
    and empty: "np_output node ! i = []"
    and not_input: "fp_output func ! i \<notin> set (take (length (np_input node)) (fp_input func))"
    and not_other: "\<forall>j < length (np_output node).
                      fp_output func ! j = fp_output func ! i \<longrightarrow> np_output node ! j = []"
    and k: "k < length (fp_node func)"
  shows "length (np_input (gp_node g' ! (length (gp_node g) + k)))
           = length (np_input (fp_node func ! k))
     \<and> length (np_output (gp_node g' ! (length (gp_node g) + k)))
           = length (np_output (fp_node func ! k))
     \<and> (\<forall>p < length (np_input (fp_node func ! k)).
           np_input (fp_node func ! k) ! p = fp_output func ! i \<longrightarrow>
           np_input (gp_node g' ! (length (gp_node g) + k)) ! p
             = InteralTensorNameGenerator (resolved_node_name node address func node_prefix)
                 (fp_output func ! i))
     \<and> (\<forall>p < length (np_output (fp_node func ! k)).
           np_output (fp_node func ! k) ! p = fp_output func ! i \<longrightarrow>
           np_output (gp_node g' ! (length (gp_node g) + k)) ! p
             = InteralTensorNameGenerator (resolved_node_name node address func node_prefix)
                 (fp_output func ! i))"
proof -
  obtain nn io am where pro: "expand_prologue reg node address func node_prefix = Inr (nn, io, am)"
    and g': "g' = g\<lparr>gp_node := gp_node g @ map (expand_node io am nn) (fp_node func)\<rparr>"
    using expand_success_D [OF ok] by blast
  have nn: "nn = resolved_node_name node address func node_prefix"
    using prologue_Inr_D(1) [OF pro] .
  have unbound: "io (fp_output func ! i) = None"
    using unbound_after_binding [OF pro not_input not_other] .
  have new: "gp_node g' ! (length (gp_node g) + k) = expand_node io am nn (fp_node func ! k)"
    using k by (simp add: g' nth_append)
  show ?thesis
    using unbound by (simp add: new rename_value_def nn)
qed

theorem C3_empty_output_internal_witness:
  "FunctionExpandHelper ex_registry (ex_call [''a'', ''b''] ['''']) ''0x1'' ex_func ex_graph []
     = (None, ex_graph\<lparr>gp_node :=
          [\<lparr>np_name = None, np_op_type = ''Add'', np_domain = [], np_doc_string = [],
            np_input = [''a'', ''b''], np_output = [''Func_n1T''], np_attribute = []\<rparr>,
           \<lparr>np_name = None, np_op_type = ''Relu'', np_domain = [], np_doc_string = [],
            np_input = [''Func_n1T''], np_output = [''Func_n1Z''], np_attribute = []\<rparr>]\<rparr>)
   \<and> (0::nat) < length (np_output (ex_call [''a'', ''b''] ['''']))
   \<and> np_output (ex_call [''a'', ''b''] ['''']) ! 0 = []
   \<and> fp_output ex_func ! 0 \<notin> set (take (length (np_input (ex_call [''a'', ''b''] [''''])))
                                       (fp_input ex_func))
   \<and> (1::nat) < length (fp_node ex_func)
   \<and> np_output (fp_node ex_func ! 1) ! 0 = fp_output ex_func ! 0
   \<and> np_output
        (gp_node (snd (FunctionExpandHelper ex_registry (ex_call [''a'', ''b''] ['''']) ''0x1''
                         ex_func ex_graph [])) ! 1) ! 0
       = ''Func_n1Z''"
proof -
  let ?node = "ex_call [''a'', ''b''] ['''']"
  let ?g' = "ex_graph\<lparr>gp_node :=
          [\<lparr>np_name = None, np_op_type = ''Add'', np_domain = [], np_doc_string = [],
            np_input = [''a'', ''b''], np_output = [''Func_n1T''], np_attribute = []\<rparr>,
           \<lparr>np_name = None, np_op_type = ''Relu'', np_domain = [], np_doc_string = [],
            np_input = [''Func_n1T''], np_output = [''Func_n1Z''], np_attribute = []\<rparr>]\<rparr>"
  have ok: "FunctionExpandHelper ex_registry ?node ''0x1'' ex_func ex_graph [] = (None, ?g')"
    by code_simp
  have i: "(0::nat) < length (np_output ?node)" by (simp add: ex_sizes)
  have empty: "np_output ?node ! 0 = []" by (simp add: ex_sizes)
  have not_input: "fp_output ex_func ! 0 \<notin> set (take (length (np_input ?node)) (fp_input ex_func))"
    by (simp add: ex_sizes)
  have not_other: "\<forall>j < length (np_output ?node).
      fp_output ex_func ! j = fp_output ex_func ! 0 \<longrightarrow> np_output ?node ! j = []"
    by (simp add: ex_sizes)
  have k: "(1::nat) < length (fp_node ex_func)" by (simp add: ex_func_def)
  have out: "np_output (fp_node ex_func ! 1) ! 0 = fp_output ex_func ! 0"
    by (simp add: ex_func_def)
  have "np_output (gp_node ?g' ! (length (gp_node ex_graph) + 1)) ! 0
          = InteralTensorNameGenerator (resolved_node_name ?node ''0x1'' ex_func [])
              (fp_output ex_func ! 0)"
    using C3_empty_output_internal [OF ok i empty not_input not_other k] out
    by (simp add: ex_func_def)
  then show ?thesis
    using ok i empty not_input k out
    by (simp add: ex_sizes resolved_node_name_def InteralTensorNameGenerator_def ex_graph_def)
qed

section \<open>Claims C4 and C5\<close>

lemma prologue_ignores_body [simp]:
  "expand_prologue reg node address (func\<lparr>fp_node := ns\<rparr>) node_prefix
     = expand_prologue reg node address func node_prefix"
  by (simp add: expand_prologue_def resolved_node_name_def Let_def
      cong: sum.case_cong option.case_cong if_cong)

lemma node_attr_fold_None:
  "fold (\<lambda>attr m. m(attr_name attr \<mapsto> attr)) as m r = None
     \<longleftrightarrow> m r = None \<and> r \<notin> attr_name ` set as"
  by (induction as arbitrary: m) auto

lemma node_attr_map_None: "node_attr_map node r = None \<longleftrightarrow> r \<notin> attr_name ` set (np_attribute node)"
  by (simp add: node_attr_map_def node_attr_fold_None)

lemma add_default_attrs_apply:
  "add_default_attrs default_attrs am r
     = (case am r of
          Some v \<Rightarrow> Some v
        | None \<Rightarrow> map_option at_default_value (map_of default_attrs r))"
  unfolding add_default_attrs_def
proof (induction default_attrs arbitrary: am)
  case Nil
  then show ?case by (simp split: option.splits)
next
  case (Cons p ps)
  obtain n a where p: "p = (n, a)" by (cases p)
  show ?case
    by (simp add: p Cons.IH split: option.splits)
qed

lemma expand_attribute_unresolved:
  "ap_ref_attr_name a = Some r \<Longrightarrow> am r = None \<Longrightarrow> expand_attribute am a = []"
  by (simp add: expand_attribute_def)

lemma expand_attribute_resolved:
  "ap_ref_attr_name a = Some r \<Longrightarrow> am r = Some v \<Longrightarrow>
   expand_attribute am a = [v\<lparr>ap_name := Some (attr_name a)\<rparr>]"
  by (simp add: expand_attribute_def)

lemma expand_node_without_attribute:
  assumes "ap_ref_attr_name a = Some r" "am r = None"
  shows "expand_node io am nn (fn\<lparr>np_attribute := as1 @ a # as2\<rparr>)
           = expand_node io am nn (fn\<lparr>np_attribute := as1 @ as2\<rparr>)"
  using assms by (simp add: expand_node_def expand_attribute_unresolved)

text \<open>
  Claim C4. A body node carries an attribute \<open>a\<close> that refers to the name \<open>r\<close>, and
  \<open>r\<close> is absent from the resolved attribute mapping (the attributes of the call site
  and the defaults of the schema, as the prologue builds it). Then the expansion does
  exactly what it does for the function whose body node has no attribute \<open>a\<close>: the same
  exception or none, and the same destination graph, so the cloned node has nothing in
  the place of \<open>a\<close> and no error is raised on its account.
\<close>

theorem C4_unresolved_reference_omitted:
  assumes ref: "ap_ref_attr_name a = Some r"
    and absent: "\<And>nn io am. expand_prologue reg node address func node_prefix = Inr (nn, io, am)
                   \<Longrightarrow> am r = None"
  shows "FunctionExpandHelper reg node address
           (func\<lparr>fp_node := ns1 @ [fn\<lparr>np_attribute := as1 @ [a] @ as2\<rparr>] @ ns2\<rparr>) g node_prefix
         = FunctionExpandHelper reg node address
           (func\<lparr>fp_node := ns1 @ [fn\<lparr>np_attribute := as1 @ as2\<rparr>] @ ns2\<rparr>) g node_prefix"
proof (cases "expand_prologue reg node address func node_prefix")
  case (Inl e)
  then show ?thesis by (simp add: FunctionExpandHelper_def)
next
  case (Inr t)
  obtain nn io am where t: "t = (nn, io, am)" by (cases t)
  have "am r = None" using absent Inr t by simp
  then show ?thesis
    using Inr t ref by (simp add: FunctionExpandHelper_def expand_node_without_attribute)
qed

theorem C4_unresolved_reference_omitted_witness:
  "ap_ref_attr_name (attr_ref ''slope'' ''beta'') = Some ''beta''
   \<and> FunctionExpandHelper attr_registry (ex_call [''a''] [''c'']) ''0x1''
        (attr_func [attr_ref ''alpha'' ''alpha'', attr_ref ''slope'' ''beta'']) ex_graph []
     = (None, ex_graph\<lparr>gp_node :=
          [\<lparr>np_name = None, np_op_type = ''LeakyRelu'', np_domain = [], np_doc_string = [],
            np_input = [''a''], np_output = [''c''],
            np_attribute = [alpha_default]\<rparr>]\<rparr>)
   \<and> FunctionExpandHelper attr_registry (ex_call [''a''] [''c'']) ''0x1''
        (attr_func [attr_ref ''alpha'' ''alpha'', attr_ref ''slope'' ''beta'']) ex_graph []
     = FunctionExpandHelper attr_registry (ex_call [''a''] [''c'']) ''0x1''
        (attr_func [attr_ref ''alpha'' ''alpha'']) ex_graph []"
proof -
  let ?fn = "\<lparr>np_name = None, np_op_type = ''LeakyRelu'', np_domain = [], np_doc_string = [],
          np_input = [''X''], np_output = [''Y''], np_attribute = []\<rparr>"
  have ref: "ap_ref_attr_name (attr_ref ''slope'' ''beta'') = Some ''beta''"
    by (simp add: attr_ref_def)
  have absent: "am ''beta'' = None"
    if pro: "expand_prologue attr_registry (ex_call [''a''] [''c'']) ''0x1'' (attr_func []) []
          = Inr (nn, io, am)" for nn io am
  proof -
    obtain schema where
      s: "attr_registry (np_op_type (ex_call [''a''] [''c'']))
            (find_domain_version (fp_opset_import (attr_func [])) (np_domain (ex_call [''a''] [''c''])))
            (np_domain (ex_call [''a''] [''c''])) = Some schema"
      and am: "am = add_default_attrs (sc_attributes schema) (node_attr_map (ex_call [''a''] [''c'']))"
      using prologue_Inr_D(6) [OF pro] by blast
    from s have "sc_attributes schema
        = [(''alpha'', \<lparr>at_required = False, at_default_value = alpha_default\<rparr>)]"
      by (auto simp: attr_registry_def split: if_splits)
    then show ?thesis
      by (simp add: am add_default_attrs_apply node_attr_map_None ex_call_def
          split: option.splits)
  qed
  have 1: "attr_func [attr_ref ''alpha'' ''alpha'', attr_ref ''slope'' ''beta'']
         = (attr_func [])\<lparr>fp_node := [] @ [?fn\<lparr>np_attribute :=
               [attr_ref ''alpha'' ''alpha''] @ [attr_ref ''slope'' ''beta''] @ []\<rparr>] @ []\<rparr>"
    by (simp add: attr_func_def)
  have 2: "attr_func [attr_ref ''alpha'' ''alpha'']
         = (attr_func [])\<lparr>fp_node := [] @ [?fn\<lparr>np_attribute :=
               [attr_ref ''alpha'' ''alpha''] @ []\<rparr>] @ []\<rparr>"
    by (simp add: attr_func_def)
  have eq: "FunctionExpandHelper attr_registry (ex_call [''a''] [''c'']) ''0x1''
        (attr_func [attr_ref ''alpha'' ''alpha'', attr_ref ''slope'' ''beta'']) ex_graph []
     = FunctionExpandHelper attr_registry (ex_call [''a''] [''c'']) ''0x1''
        (attr_func [attr_ref ''alpha'' ''alpha'']) ex_graph []"
    unfolding 1 2
  proof (rule C4_unresolved_reference_omitted
          [where a = "attr_ref ''slope'' ''beta''" and r = "''beta''" and reg = attr_registry
             and node = "ex_call [''a''] [''c'']" and address = "''0x1''"
             and func = "attr_func []" and node_prefix = "[]"])
    show "ap_ref_attr_name (attr_ref ''slope'' ''beta'') = Some ''beta''"
      by (rule ref)
    show "am ''beta'' = None"
      if "expand_prologue attr_registry (ex_call [''a''] [''c'']) ''0x1'' (attr_func []) []
            = Inr (nn, io, am)" for nn io am
      using that by (rule absent)
  qed
  have val: "FunctionExpandHelper attr_registry (ex_call [''a''] [''c'']) ''0x1''
        (attr_func [attr_ref ''alpha'' ''alpha'', attr_ref ''slope'' ''beta'']) ex_graph []
     = (None, ex_graph\<lparr>gp_node :=
          [\<lparr>np_name = None, np_op_type = ''LeakyRelu'', np_domain = [], np_doc_string = [],
            np_input = [''a''], np_output = [''c''],
            np_attribute = [alpha_default]\<rparr>]\<rparr>)"
    by code_simp
  show ?thesis using ref eq val by simp
qed

text \<open>
  Claim C5. The expansion succeeds with the schema that the registry returns for the
  operator of the call site; the schema declares the attribute name \<open>r\<close>, and the call
  site supplies no attribute of that name. Then the resolved attribute mapping holds the
  default value of the schema under \<open>r\<close>, and a body attribute \<open>a\<close> that refers to
  \<open>r\<close> is cloned, at its place among the attributes of the cloned node, as the default
  value of the schema under the name of \<open>a\<close>: its value and every other field are those
  of the default.
\<close>

theorem C5_schema_default_resolved:
  assumes ok: "FunctionExpandHelper reg node address func g node_prefix = (None, g')"
    and schema: "reg (np_op_type node)
                   (find_domain_version (fp_opset_import func) (np_domain node))
                   (np_domain node) = Some schema"
    and declared: "map_of (sc_attributes schema) r = Some sattr"
    and not_supplied: "r \<notin> attr_name ` set (np_attribute node)"
    and k: "k < length (fp_node func)"
    and attrs: "np_attribute (fp_node func ! k) = as1 @ [a] @ as2"
    and ref: "ap_ref_attr_name a = Some r"
  shows "add_default_attrs (sc_attributes schema) (node_attr_map node) r
           = Some (at_default_value sattr)
     \<and> np_attribute (gp_node g' ! (length (gp_node g) + k))
         = concat (map (expand_attribute
                          (add_default_attrs (sc_attributes schema) (node_attr_map node))) as1)
           @ [(at_default_value sattr)\<lparr>ap_name := Some (attr_name a)\<rparr>]
           @ concat (map (expand_attribute
                          (add_default_attrs (sc_attributes schema) (node_attr_map node))) as2)"
proof -
  obtain nn io am where pro: "expand_prologue reg node address func node_prefix = Inr (nn, io, am)"
    and g': "g' = g\<lparr>gp_node := gp_node g @ map (expand_node io am nn) (fp_node func)\<rparr>"
    using expand_success_D [OF ok] by blast
  have am: "am = add_default_attrs (sc_attributes schema) (node_attr_map node)"
    using prologue_Inr_D(6) [OF pro] schema by auto
  have "node_attr_map node r = None"
    using not_supplied by (simp add: node_attr_map_None)
  then have r: "am r = Some (at_default_value sattr)"
    using declared by (simp add: am add_default_attrs_apply)
  have new: "gp_node g' ! (length (gp_node g) + k) = expand_node io am nn (fp_node func ! k)"
    using k by (simp add: g' nth_append)
  have ea: "expand_attribute am a = [(at_default_value sattr)\<lparr>ap_name := Some (attr_name a)\<rparr>]"
    using ref r by (rule expand_attribute_resolved)
  have "add_default_attrs (sc_attributes schema) (node_attr_map node) = am"
    using am by simp
  then show ?thesis
    using r ea by (simp add: new attrs)
qed

theorem C5_schema_default_resolved_witness:
  "FunctionExpandHelper attr_registry (ex_call [''a''] [''c'']) ''0x1''
        (attr_func [attr_ref ''slope'' ''alpha'']) ex_graph []
     = (None, ex_graph\<lparr>gp_node :=
          [\<lparr>np_name = None, np_op_type = ''LeakyRelu'', np_domain = [], np_doc_string = [],
            np_input = [''a''], np_output = [''c''],
            np_attribute = [\<lparr>ap_name = Some ''slope'', ap_ref_attr_name = None,
                             ap_value = ATTR_INT 7\<rparr>]\<rparr>]\<rparr>)
   \<and> ''alpha'' \<notin> attr_name ` set (np_attribute (ex_call [''a''] [''c'']))
   \<and> ap_ref_attr_name (attr_ref ''slope'' ''alpha'') = Some ''alpha''
   \<and> np_attribute (gp_node (ex_graph\<lparr>gp_node :=
          [\<lparr>np_name = None, np_op_type = ''LeakyRelu'', np_domain = [], np_doc_string = [],
            np_input = [''a''], np_output = [''c''],
            np_attribute = [\<lparr>ap_name = Some ''slope'', ap_ref_attr_name = None,
                             ap_value = ATTR_INT 7\<rparr>]\<rparr>]\<rparr>) ! 0)
       = [alpha_default\<lparr>ap_name := Some (attr_name (attr_ref ''slope'' ''alpha''))\<rparr>]"
proof -
  let ?node = "ex_call [''a''] [''c'']"
  let ?func = "attr_func [attr_ref ''slope'' ''alpha'']"
  let ?schema = "\<lparr>sc_attributes =
                   [(''alpha'', \<lparr>at_required = False, at_default_value = alpha_default\<rparr>)]\<rparr>"
  let ?g' = "ex_graph\<lparr>gp_node :=
          [\<lparr>np_name = None, np_op_type = ''LeakyRelu'', np_domain = [], np_doc_string = [],
            np_input = [''a''], np_output = [''c''],
            np_attribute = [\<lparr>ap_name = Some ''slope'', ap_ref_attr_name = None,
                             ap_value = ATTR_INT 7\<rparr>]\<rparr>]\<rparr>"
  have ok: "FunctionExpandHelper attr_registry ?node ''0x1'' ?func ex_graph [] = (None, ?g')"
    by code_simp
  have schema: "attr_registry (np_op_type ?node)
                   (find_domain_version (fp_opset_import ?func) (np_domain ?node))
                   (np_domain ?node) = Some ?schema"
    by code_simp
  have declared: "map_of (sc_attributes ?schema) ''alpha''
                    = Some \<lparr>at_required = False, at_default_value = alpha_default\<rparr>"
    by simp
  have not_supplied: "''alpha'' \<notin> attr_name ` set (np_attribute ?node)"
    by (simp add: ex_call_def)
  have k: "(0::nat) < length (fp_node ?func)" by (simp add: attr_func_def)
  have attrs: "np_attribute (fp_node ?func ! 0) = [] @ [attr_ref ''slope'' ''alpha''] @ []"
    by (simp add: attr_func_def)
  have ref: "ap_ref_attr_name (attr_ref ''slope'' ''alpha'') = Some ''alpha''"
    by (simp add: attr_ref_def)
  have "np_attribute (gp_node ?g' ! (length (gp_node ex_graph) + 0))
      = [alpha_default\<lparr>ap_name := Some (attr_name (attr_ref ''slope'' ''alpha''))\<rparr>]"
    using C5_schema_default_resolved [OF ok schema declared not_supplied k attrs ref]
    by simp
  then show ?thesis
    using ok not_supplied ref by (simp add: ex_graph_def)
qed

section \<open>Claims C6 and C10\<close>

lemma domain_version_fold_no_match:
  "\<forall>x \<in> set imps. os_domain x \<noteq> d \<Longrightarrow>
   fold (\<lambda>opset_import domain_version.
           if os_domain opset_import = d then ucast (os_version opset_import)
           else domain_version) imps v = v"
  by (induction imps arbitrary: v) simp_all

lemma find_domain_version_no_match:
  "\<forall>x \<in> set imps. os_domain x \<noteq> d \<Longrightarrow> find_domain_version imps d = - 1"
  by (simp add: find_domain_version_def domain_version_fold_no_match)

lemma find_domain_version_last_match:
  assumes "os_domain imp = d" and "\<forall>x \<in> set post. os_domain x \<noteq> d"
  shows "find_domain_version (pre @ [imp] @ post) d = ucast (os_version imp)"
  using assms by (simp add: find_domain_version_def domain_version_fold_no_match)

lemma find_domain_version_some_match:
  assumes "\<exists>x \<in> set imps. os_domain x = d"
  shows "\<exists>x \<in> set imps. os_domain x = d \<and> find_domain_version imps d = ucast (os_version x)"
proof -
  obtain pre imp post where "imps = pre @ imp # post" "os_domain imp = d"
    "\<forall>x \<in> set post. os_domain x \<noteq> d"
    using split_list_last_prop [OF assms] by blast
  then show ?thesis
    using find_domain_version_last_match [of imp d post pre] by auto
qed

lemma prologue_registry_cong:
  assumes "reg' (np_op_type node) (find_domain_version (fp_opset_import func) (np_domain node))
             (np_domain node)
           = reg (np_op_type node) (find_domain_version (fp_opset_import func) (np_domain node))
             (np_domain node)"
  shows "expand_prologue reg' node address func node_prefix
           = expand_prologue reg node address func node_prefix"
  using assms
  by (simp add: expand_prologue_def Let_def cong: sum.case_cong option.case_cong if_cong)

lemma expand_registry_cong:
  assumes "reg' (np_op_type node) (find_domain_version (fp_opset_import func) (np_domain node))
             (np_domain node)
           = reg (np_op_type node) (find_domain_version (fp_opset_import func) (np_domain node))
             (np_domain node)"
  shows "FunctionExpandHelper reg' node address func g node_prefix
           = FunctionExpandHelper reg node address func g node_prefix"
  using prologue_registry_cong [of reg' node func reg address node_prefix] assms
  by (simp add: FunctionExpandHelper_def)

lemma prologue_within_arity:
  assumes "length (np_input node) \<le> length (fp_input func)"
    and "length (np_output node) \<le> length (fp_output func)"
  shows "\<exists>io. expand_prologue reg node address func node_prefix
     = (if find_domain_version (fp_opset_import func) (np_domain node) = - 1
        then Inl (ONNX_THROW (no_opset_import_message (np_domain node)))
        else case reg (np_op_type node)
                    (find_domain_version (fp_opset_import func) (np_domain node))
                    (np_domain node) of
               None \<Rightarrow> Inl NullSchemaDereference
             | Some schema \<Rightarrow>
                 Inr (resolved_node_name node address func node_prefix, io,
                      add_default_attrs (sc_attributes schema) (node_attr_map node)))"
proof -
  obtain io where "bind_outputs (resolved_node_name node address func node_prefix)
      (fp_output func) (np_output node) (Map.empty(fp_input func [\<mapsto>] np_input node)) = Inr io"
    using bind_outputs_in_range [OF assms(2)] by blast
  then show ?thesis
    using assms(1) by (auto simp: expand_prologue_def Let_def bind_inputs_in_range)
qed

lemma expand_within_arity_status:
  assumes "length (np_input node) \<le> length (fp_input func)"
    and "length (np_output node) \<le> length (fp_output func)"
    and "find_domain_version (fp_opset_import func) (np_domain node) \<noteq> - 1"
  shows "fst (FunctionExpandHelper reg node address func g node_prefix)
     = (case reg (np_op_type node)
               (find_domain_version (fp_opset_import func) (np_domain node)) (np_domain node) of
          None \<Rightarrow> Some NullSchemaDereference
        | Some schema \<Rightarrow> None)"
  using prologue_within_arity [OF assms(1,2), of reg address node_prefix] assms(3)
  by (auto simp: FunctionExpandHelper_def split: option.splits)

text \<open>
  Claim C6, as stated, fails: a call site in the domain \<open>custom\<close>, which no opset import
  of \<open>ex_func\<close> has, and with three inputs where the function has two formal inputs. The
  input loop runs first and raises the out-of-bounds error; the error for the missing
  opset import is not the one raised.
\<close>

theorem C6_counterexample:
  "np_domain (custom_domain_call [''a'', ''b'', ''c'']) = ''custom''
   \<and> map os_domain (fp_opset_import ex_func) = ['''']
   \<and> FunctionExpandHelper ex_registry (custom_domain_call [''a'', ''b'', ''c'']) ''0x1''
        ex_func ex_graph []
       = (Some (ONNX_THROW ''Input for function node n1 is out of bounds''), ex_graph)
   \<and> fst (FunctionExpandHelper ex_registry (custom_domain_call [''a'', ''b'', ''c'']) ''0x1''
        ex_func ex_graph [])
       \<noteq> Some (ONNX_THROW (no_opset_import_message ''custom''))"
  by code_simp

text \<open>
  Claim C6, amended. For a call site whose inputs and outputs are within the formal arity
  of the function and whose domain is the domain of no opset import of the function, the
  expansion raises \<^verbatim>\<open>No opset import registered for domain '...' in function proto\<close>
  and the destination graph is as it was. When some opset import has the domain of the
  call site, the version that the loop keeps is the version of such an import, narrowed to
  \<^verbatim>\<open>int\<close>; the registry is consulted at that version only (a registry that agrees with
  it there gives the same result), and within the formal arity, unless the narrowed
  version is \<open>-1\<close>, the expansion succeeds exactly when the registry has a schema there.
\<close>

theorem C6_unresolved_opset_import:
  "(length (np_input node) \<le> length (fp_input func)
      \<and> length (np_output node) \<le> length (fp_output func)
      \<and> (\<forall>imp \<in> set (fp_opset_import func). os_domain imp \<noteq> np_domain node) \<longrightarrow>
      FunctionExpandHelper reg node address func g node_prefix
        = (Some (ONNX_THROW (''No opset import registered for domain '' @ [CHR 0x27]
                   @ np_domain node @ [CHR 0x27] @ '' in function proto'')), g))
   \<and> ((\<exists>imp \<in> set (fp_opset_import func). os_domain imp = np_domain node) \<longrightarrow>
      (\<exists>imp \<in> set (fp_opset_import func).
          os_domain imp = np_domain node
        \<and> find_domain_version (fp_opset_import func) (np_domain node) = ucast (os_version imp)
        \<and> (\<forall>reg'. reg' (np_op_type node) (ucast (os_version imp)) (np_domain node)
                      = reg (np_op_type node) (ucast (os_version imp)) (np_domain node) \<longrightarrow>
                    FunctionExpandHelper reg' node address func g node_prefix
                      = FunctionExpandHelper reg node address func g node_prefix)
        \<and> (length (np_input node) \<le> length (fp_input func)
            \<and> length (np_output node) \<le> length (fp_output func)
            \<and> (ucast (os_version imp) :: 32 word) \<noteq> - 1 \<longrightarrow>
            fst (FunctionExpandHelper reg node address func g node_prefix)
              = (case reg (np_op_type node) (ucast (os_version imp)) (np_domain node) of
                   None \<Rightarrow> Some NullSchemaDereference
                 | Some schema \<Rightarrow> None))))"
proof (intro conjI impI)
  assume a: "length (np_input node) \<le> length (fp_input func)
      \<and> length (np_output node) \<le> length (fp_output func)
      \<and> (\<forall>imp \<in> set (fp_opset_import func). os_domain imp \<noteq> np_domain node)"
  then have v: "find_domain_version (fp_opset_import func) (np_domain node) = - 1"
    by (simp add: find_domain_version_no_match)
  obtain io where "expand_prologue reg node address func node_prefix
     = (if find_domain_version (fp_opset_import func) (np_domain node) = - 1
        then Inl (ONNX_THROW (no_opset_import_message (np_domain node)))
        else case reg (np_op_type node)
                    (find_domain_version (fp_opset_import func) (np_domain node))
                    (np_domain node) of
               None \<Rightarrow> Inl NullSchemaDereference
             | Some schema \<Rightarrow>
                 Inr (resolved_node_name node address func node_prefix, io,
                      add_default_attrs (sc_attributes schema) (node_attr_map node)))"
    using a prologue_within_arity [of node func reg address node_prefix] by blast
  then have "expand_prologue reg node address func node_prefix
               = Inl (ONNX_THROW (no_opset_import_message (np_domain node)))"
    by (simp only: v simp_thms if_True)
  then show "FunctionExpandHelper reg node address func g node_prefix
        = (Some (ONNX_THROW (''No opset import registered for domain '' @ [CHR 0x27]
                   @ np_domain node @ [CHR 0x27] @ '' in function proto'')), g)"
    by (simp add: FunctionExpandHelper_def no_opset_import_message_def)
next
  assume "\<exists>imp \<in> set (fp_opset_import func). os_domain imp = np_domain node"
  then obtain imp where imp: "imp \<in> set (fp_opset_import func)"
    and dom: "os_domain imp = np_domain node"
    and v: "find_domain_version (fp_opset_import func) (np_domain node) = ucast (os_version imp)"
    using find_domain_version_some_match by blast
  show "\<exists>imp \<in> set (fp_opset_import func).
          os_domain imp = np_domain node
        \<and> find_domain_version (fp_opset_import func) (np_domain node) = ucast (os_version imp)
        \<and> (\<forall>reg'. reg' (np_op_type node) (ucast (os_version imp)) (np_domain node)
                      = reg (np_op_type node) (ucast (os_version imp)) (np_domain node) \<longrightarrow>
                    FunctionExpandHelper reg' node address func g node_prefix
                      = FunctionExpandHelper reg node address func g node_prefix)
        \<and> (length (np_input node) \<le> length (fp_input func)
            \<and> length (np_output node) \<le> length (fp_output func)
            \<and> (ucast (os_version imp) :: 32 word) \<noteq> - 1 \<longrightarrow>
            fst (FunctionExpandHelper reg node address func g node_prefix)
              = (case reg (np_op_type node) (ucast (os_version imp)) (np_domain node) of
                   None \<Rightarrow> Some NullSchemaDereference
                 | Some schema \<Rightarrow> None))"
  proof (rule bexI [OF _ imp], intro conjI allI impI)
    show "os_domain imp = np_domain node" by (rule dom)
    show "find_domain_version (fp_opset_import func) (np_domain node) = ucast (os_version imp)"
      by (rule v)
  next
    fix reg' :: OpSchemaRegistry
    assume "reg' (np_op_type node) (ucast (os_version imp)) (np_domain node)
              = reg (np_op_type node) (ucast (os_version imp)) (np_domain node)"
    then show "FunctionExpandHelper reg' node address func g node_prefix
                 = FunctionExpandHelper reg node address func g node_prefix"
      using expand_registry_cong [of reg' node func reg address g node_prefix]
      by (simp only: v)
  next
    assume "length (np_input node) \<le> length (fp_input func)
            \<and> length (np_output node) \<le> length (fp_output func)
            \<and> (ucast (os_version imp) :: 32 word) \<noteq> - 1"
    then show "fst (FunctionExpandHelper reg node address func g node_prefix)
              = (case reg (np_op_type node) (ucast (os_version imp)) (np_domain node) of
                   None \<Rightarrow> Some NullSchemaDereference
                 | Some schema \<Rightarrow> None)"
      using expand_within_arity_status [of node func reg address g node_prefix]
      by (simp only: v) simp
  qed
qed

theorem C6_unresolved_opset_import_witness:
  "length (np_input (custom_domain_call [''a'', ''b''])) \<le> length (fp_input ex_func)
   \<and> length (np_output (custom_domain_call [''a'', ''b''])) \<le> length (fp_output ex_func)
   \<and> np_domain (custom_domain_call [''a'', ''b'']) = ''custom''
   \<and> map os_domain (fp_opset_import ex_func) = ['''']
   \<and> FunctionExpandHelper ex_registry (custom_domain_call [''a'', ''b'']) ''0x1'' ex_func
         ex_graph []
       = (Some (ONNX_THROW (''No opset import registered for domain '' @ [CHR 0x27]
                  @ ''custom'' @ [CHR 0x27] @ '' in function proto'')), ex_graph)
   \<and> np_domain (ex_call [''a'', ''b''] [''c'']) = []
   \<and> find_domain_version (fp_opset_import ex_func) (np_domain (ex_call [''a'', ''b''] [''c'']))
       = 14
   \<and> fst (FunctionExpandHelper ex_registry (ex_call [''a'', ''b''] [''c'']) ''0x1'' ex_func
            ex_graph []) = None"
proof -
  have doms: "map os_domain (fp_opset_import ex_func) = ['''']"
    "np_domain (custom_domain_call [''a'', ''b'']) = ''custom''"
    "np_domain (ex_call [''a'', ''b''] [''c'']) = []"
    "np_op_type (ex_call [''a'', ''b''] [''c'']) = ''F''"
    "fp_opset_import ex_func = [\<lparr>os_domain = [], os_version = 14\<rparr>]"
    "np_input (custom_domain_call [''a'', ''b'']) = [''a'', ''b'']"
    "np_output (custom_domain_call [''a'', ''b'']) = [''c'']"
    by (simp_all add: ex_func_def custom_domain_call_def ex_call_def)
  have reg: "ex_registry ''F'' 14 [] = Some \<lparr>sc_attributes = []\<rparr>"
    by (simp add: ex_registry_def)
  have pre: "length (np_input (custom_domain_call [''a'', ''b''])) \<le> length (fp_input ex_func)
      \<and> length (np_output (custom_domain_call [''a'', ''b''])) \<le> length (fp_output ex_func)
      \<and> (\<forall>imp \<in> set (fp_opset_import ex_func).
            os_domain imp \<noteq> np_domain (custom_domain_call [''a'', ''b'']))"
    by (simp add: doms ex_sizes)
  have 1: "FunctionExpandHelper ex_registry (custom_domain_call [''a'', ''b'']) ''0x1'' ex_func
         ex_graph []
       = (Some (ONNX_THROW (''No opset import registered for domain '' @ [CHR 0x27]
                  @ np_domain (custom_domain_call [''a'', ''b'']) @ [CHR 0x27]
                  @ '' in function proto'')), ex_graph)"
    using C6_unresolved_opset_import
            [of "custom_domain_call [''a'', ''b'']" ex_func ex_registry "''0x1''" ex_graph "[]",
             THEN conjunct1, THEN mp, OF pre] .
  have ex: "\<exists>imp \<in> set (fp_opset_import ex_func).
              os_domain imp = np_domain (ex_call [''a'', ''b''] [''c''])"
    by (simp add: doms)
  obtain imp where imp: "imp \<in> set (fp_opset_import ex_func)"
    and v: "find_domain_version (fp_opset_import ex_func)
              (np_domain (ex_call [''a'', ''b''] [''c''])) = ucast (os_version imp)"
    and status: "length (np_input (ex_call [''a'', ''b''] [''c''])) \<le> length (fp_input ex_func)
            \<and> length (np_output (ex_call [''a'', ''b''] [''c''])) \<le> length (fp_output ex_func)
            \<and> (ucast (os_version imp) :: 32 word) \<noteq> - 1 \<longrightarrow>
            fst (FunctionExpandHelper ex_registry (ex_call [''a'', ''b''] [''c'']) ''0x1''
                   ex_func ex_graph [])
              = (case ex_registry (np_op_type (ex_call [''a'', ''b''] [''c'']))
                        (ucast (os_version imp)) (np_domain (ex_call [''a'', ''b''] [''c''])) of
                   None \<Rightarrow> Some NullSchemaDereference
                 | Some schema \<Rightarrow> None)"
    using C6_unresolved_opset_import
            [of "ex_call [''a'', ''b''] [''c'']" ex_func ex_registry "''0x1''" ex_graph "[]",
             THEN conjunct2, THEN mp, OF ex]
    by blast
  have imp_eq: "imp = \<lparr>os_domain = [], os_version = 14\<rparr>"
    using imp by (simp add: doms)
  have u: "(ucast (os_version imp) :: 32 word) = 14"
    by (simp add: imp_eq)
  have 2: "find_domain_version (fp_opset_import ex_func) (np_domain (ex_call [''a'', ''b''] [''c'']))
             = 14
         \<and> fst (FunctionExpandHelper ex_registry (ex_call [''a'', ''b''] [''c'']) ''0x1'' ex_func
            ex_graph []) = None"
    using v status by (simp add: u doms ex_sizes reg)
  show ?thesis using 1 2 by (simp add: doms ex_sizes)
qed

text \<open>
  Claim C10. The opset imports of the function are \<open>pre\<close>, then \<open>imp\<close>, then \<open>post\<close>;
  \<open>imp\<close> has the domain of the call site and no import in \<open>post\<close> has it, so \<open>imp\<close> is
  the last matching import, whatever matches \<open>pre\<close> holds. Then the version that the loop
  keeps is the version of \<open>imp\<close>, narrowed to \<^verbatim>\<open>int\<close>; the registry is consulted at that
  version only, and for a call site within the formal arity, unless the narrowed version
  is \<open>-1\<close>, the expansion succeeds exactly when the registry has a schema at that version.
\<close>

theorem C10_last_matching_import:
  assumes imps: "fp_opset_import func = pre @ [imp] @ post"
    and matches: "os_domain imp = np_domain node"
    and last: "\<forall>x \<in> set post. os_domain x \<noteq> np_domain node"
  shows "find_domain_version (fp_opset_import func) (np_domain node) = ucast (os_version imp)
     \<and> (\<forall>reg'. reg' (np_op_type node) (ucast (os_version imp)) (np_domain node)
                   = reg (np_op_type node) (ucast (os_version imp)) (np_domain node) \<longrightarrow>
                 FunctionExpandHelper reg' node address func g node_prefix
                   = FunctionExpandHelper reg node address func g node_prefix)
     \<and> (length (np_input node) \<le> length (fp_input func)
         \<and> length (np_output node) \<le> length (fp_output func)
         \<and> (ucast (os_version imp) :: 32 word) \<noteq> - 1 \<longrightarrow>
         fst (FunctionExpandHelper reg node address func g node_prefix)
           = (case reg (np_op_type node) (ucast (os_version imp)) (np_domain node) of
                None \<Rightarrow> Some NullSchemaDereference
              | Some schema \<Rightarrow> None))"
proof (intro conjI allI impI)
  show v: "find_domain_version (fp_opset_import func) (np_domain node) = ucast (os_version imp)"
    unfolding imps using matches last by (rule find_domain_version_last_match)
  {
    fix reg' :: OpSchemaRegistry
    assume "reg' (np_op_type node) (ucast (os_version imp)) (np_domain node)
              = reg (np_op_type node) (ucast (os_version imp)) (np_domain node)"
    then show "FunctionExpandHelper reg' node address func g node_prefix
                 = FunctionExpandHelper reg node address func g node_prefix"
      using expand_registry_cong [of reg' node func reg address g node_prefix]
      by (simp only: v)
  }
  assume "length (np_input node) \<le> length (fp_input func)
            \<and> length (np_output node) \<le> length (fp_output func)
            \<and> (ucast (os_version imp) :: 32 word) \<noteq> - 1"
  then show "fst (FunctionExpandHelper reg node address func g node_prefix)
              = (case reg (np_op_type node) (ucast (os_version imp)) (np_domain node) of
                   None \<Rightarrow> Some NullSchemaDereference
                 | Some schema \<Rightarrow> None)"
    using expand_within_arity_status [of node func reg address g node_prefix]
    by (simp only: v) simp
qed

theorem C10_last_matching_import_witness:
  "fp_opset_import two_import_func
     = [\<lparr>os_domain = [], os_version = 13\<rparr>, \<lparr>os_domain = ''other'', os_version = 2\<rparr>]
       @ [\<lparr>os_domain = [], os_version = 14\<rparr>] @ [\<lparr>os_domain = ''other'', os_version = 3\<rparr>]
   \<and> np_domain (ex_call [''a''] [''c'']) = []
   \<and> find_domain_version (fp_opset_import two_import_func) (np_domain (ex_call [''a''] [''c'']))
        = 14
   \<and> FunctionExpandHelper versioned_registry (ex_call [''a''] [''c'']) ''0x1'' two_import_func
        ex_graph []
      = (None, ex_graph\<lparr>gp_node :=
          [\<lparr>np_name = None, np_op_type = ''LeakyRelu'', np_domain = [], np_doc_string = [],
            np_input = [''a''], np_output = [''c''],
            np_attribute = [\<lparr>ap_name = Some ''slope'', ap_ref_attr_name = None,
                             ap_value = ATTR_INT 7\<rparr>]\<rparr>]\<rparr>)
   \<and> FunctionExpandHelper attr_registry (ex_call [''a''] [''c'']) ''0x1'' two_import_func
        ex_graph []
      = FunctionExpandHelper versioned_registry (ex_call [''a''] [''c'']) ''0x1'' two_import_func
        ex_graph []"
proof -
  let ?imp = "\<lparr>os_domain = [], os_version = 14\<rparr>"
  have imps: "fp_opset_import two_import_func
     = [\<lparr>os_domain = [], os_version = 13\<rparr>, \<lparr>os_domain = ''other'', os_version = 2\<rparr>]
       @ [?imp] @ [\<lparr>os_domain = ''other'', os_version = 3\<rparr>]"
    by (simp add: two_import_func_def)
  have matches: "os_domain ?imp = np_domain (ex_call [''a''] [''c''])"
    by (simp add: ex_call_def)
  have last: "\<forall>x \<in> set [\<lparr>os_domain = ''other'', os_version = 3\<rparr>].
                 os_domain x \<noteq> np_domain (ex_call [''a''] [''c''])"
    by (simp add: ex_call_def)
  note c10 = C10_last_matching_import [OF imps matches last,
      of versioned_registry "''0x1''" ex_graph "[]"]
  have agree: "attr_registry (np_op_type (ex_call [''a''] [''c''])) (ucast (os_version ?imp))
                  (np_domain (ex_call [''a''] [''c'']))
             = versioned_registry (np_op_type (ex_call [''a''] [''c''])) (ucast (os_version ?imp))
                  (np_domain (ex_call [''a''] [''c'']))"
    by (simp add: versioned_registry_def attr_registry_def)
  have v: "find_domain_version (fp_opset_import two_import_func)
             (np_domain (ex_call [''a''] [''c''])) = 14"
    using c10 [THEN conjunct1] by simp
  have same: "FunctionExpandHelper attr_registry (ex_call [''a''] [''c'']) ''0x1''
                two_import_func ex_graph []
      = FunctionExpandHelper versioned_registry (ex_call [''a''] [''c'']) ''0x1''
                two_import_func ex_graph []"
    using c10 [THEN conjunct2, THEN conjunct1, THEN spec [of _ attr_registry], THEN mp, OF agree] .
  have val: "FunctionExpandHelper versioned_registry (ex_call [''a''] [''c'']) ''0x1''
        two_import_func ex_graph []
      = (None, ex_graph\<lparr>gp_node :=
          [\<lparr>np_name = None, np_op_type = ''LeakyRelu'', np_domain = [], np_doc_string = [],
            np_input = [''a''], np_output = [''c''],
            np_attribute = [\<lparr>ap_name = Some ''slope'', ap_ref_attr_name = None,
                             ap_value = ATTR_INT 7\<rparr>]\<rparr>]\<rparr>)"
    by code_simp
  show ?thesis using imps v same val by (simp add: ex_call_def)
qed

section \<open>Claim C1\<close>

lemma generated_name_form:
  assumes "x \<in> set (generated_internal_names reg node address func node_prefix)"
  shows "\<exists>i. x = ''Func_'' @ resolved_node_name node address func node_prefix @ i"
proof (cases "expand_prologue reg node address func node_prefix")
  case (Inl e)
  then show ?thesis using assms by (simp add: generated_internal_names_def)
next
  case (Inr t)
  obtain nn io am where t: "t = (nn, io, am)" by (cases t)
  have nn: "nn = resolved_node_name node address func node_prefix"
    using prologue_Inr_D(1) Inr t by simp
  show ?thesis
    using assms Inr t
    by (auto simp: generated_internal_names_def internal_names_of_node_def
        InteralTensorNameGenerator_def nn)
qed

text \<open>
  The generated internal names of a successful expansion are names of the records it
  appended: each is an input or an output of a cloned body node.
\<close>

lemma generated_names_emitted:
  assumes ok: "FunctionExpandHelper reg node address func g node_prefix = (None, g')"
    and x: "x \<in> set (generated_internal_names reg node address func node_prefix)"
  shows "\<exists>n \<in> set (drop (length (gp_node g)) (gp_node g')).
           x \<in> set (np_input n) \<union> set (np_output n)"
proof -
  obtain nn io am where pro: "expand_prologue reg node address func node_prefix = Inr (nn, io, am)"
    and g': "g' = g\<lparr>gp_node := gp_node g @ map (expand_node io am nn) (fp_node func)\<rparr>"
    using expand_success_D [OF ok] by blast
  from x pro obtain fn y where fn: "fn \<in> set (fp_node func)"
    and y: "y \<in> set (np_input fn) \<union> set (np_output fn)" "io y = None"
    and xy: "x = InteralTensorNameGenerator nn y"
    by (auto simp: generated_internal_names_def internal_names_of_node_def)
  have "rename_value io nn y = x"
    using y(2) xy by (simp add: rename_value_def)
  then have "x \<in> set (np_input (expand_node io am nn fn)) \<union> set (np_output (expand_node io am nn fn))"
    using y(1) by auto
  moreover have "expand_node io am nn fn \<in> set (drop (length (gp_node g)) (gp_node g'))"
    using fn by (simp add: g')
  ultimately show ?thesis by blast
qed

text \<open>
  Claim C1, as stated, fails: two call sites at different addresses, with different
  inputs and outputs, both carry the name \<open>n1\<close> and both call \<open>ex_func\<close>. The name of
  the node is used in place of its address, so both expansions into the same graph
  generate the same internal name \<open>Func_n1T\<close>, and the two copies of the body share it.
\<close>

theorem C1_counterexample:
  "''0x1'' \<noteq> ''0x2''
   \<and> ex_call [''a'', ''b''] [''c''] \<noteq> ex_call [''d'', ''e''] [''f'']
   \<and> generated_internal_names ex_registry (ex_call [''a'', ''b''] [''c'']) ''0x1'' ex_func []
       = [''Func_n1T'', ''Func_n1T'']
   \<and> generated_internal_names ex_registry (ex_call [''d'', ''e''] [''f'']) ''0x2'' ex_func []
       = [''Func_n1T'', ''Func_n1T'']
   \<and> set (generated_internal_names ex_registry (ex_call [''a'', ''b''] [''c'']) ''0x1'' ex_func [])
       \<inter> set (generated_internal_names ex_registry (ex_call [''d'', ''e''] [''f'']) ''0x2''
                ex_func [])
       \<noteq> {}
   \<and> map np_output
         (gp_node (snd (FunctionExpandHelper ex_registry (ex_call [''d'', ''e''] [''f'']) ''0x2''
            ex_func
            (snd (FunctionExpandHelper ex_registry (ex_call [''a'', ''b''] [''c'']) ''0x1''
                    ex_func ex_graph []))
            [])))
       = [ [''Func_n1T''], [''c''], [''Func_n1T''], [''f''] ]"
  by code_simp

text \<open>
  Claim C1, amended. The name under which a call site is expanded is its own name when
  it has one, and otherwise the name of the function followed by the prefix that the
  caller passed or, when that is empty, by the printed address of the node. When neither
  of the two names under which two call sites are expanded is a prefix of the other (as
  for two different names of the same length), no generated internal name of the one is
  a generated internal name of the other, also when both call the same function.
\<close>

theorem C1_disjoint_internal_names:
  assumes "\<not> prefix (resolved_node_name node1 address1 func1 node_prefix1)
                     (resolved_node_name node2 address2 func2 node_prefix2)"
    and "\<not> prefix (resolved_node_name node2 address2 func2 node_prefix2)
                   (resolved_node_name node1 address1 func1 node_prefix1)"
  shows "set (generated_internal_names reg node1 address1 func1 node_prefix1)
           \<inter> set (generated_internal_names reg node2 address2 func2 node_prefix2) = {}"
proof (rule ccontr)
  assume "set (generated_internal_names reg node1 address1 func1 node_prefix1)
           \<inter> set (generated_internal_names reg node2 address2 func2 node_prefix2) \<noteq> {}"
  then obtain x where x1: "x \<in> set (generated_internal_names reg node1 address1 func1 node_prefix1)"
    and x2: "x \<in> set (generated_internal_names reg node2 address2 func2 node_prefix2)"
    by blast
  obtain i1 where i1: "x = ''Func_'' @ resolved_node_name node1 address1 func1 node_prefix1 @ i1"
    using generated_name_form [OF x1] by blast
  obtain i2 where i2: "x = ''Func_'' @ resolved_node_name node2 address2 func2 node_prefix2 @ i2"
    using generated_name_form [OF x2] by blast
  let ?y = "resolved_node_name node1 address1 func1 node_prefix1 @ i1"
  have eq: "?y = resolved_node_name node2 address2 func2 node_prefix2 @ i2"
    using i1 i2 by simp
  have "prefix (resolved_node_name node1 address1 func1 node_prefix1) ?y"
    by simp
  moreover have "prefix (resolved_node_name node2 address2 func2 node_prefix2) ?y"
    unfolding eq by simp
  ultimately show False
    using assms prefix_same_cases by blast
qed

theorem C1_disjoint_internal_names_witness:
  "resolved_node_name (ex_call [''a'', ''b''] [''c'']) ''0x1'' ex_func [] = ''n1''
   \<and> resolved_node_name unnamed_call ''0x2'' ex_func [] = ''F0x2''
   \<and> \<not> prefix ''n1'' ''F0x2'' \<and> \<not> prefix ''F0x2'' ''n1''
   \<and> generated_internal_names ex_registry (ex_call [''a'', ''b''] [''c'']) ''0x1'' ex_func []
       = [''Func_n1T'', ''Func_n1T'']
   \<and> generated_internal_names ex_registry unnamed_call ''0x2'' ex_func []
       = [''Func_F0x2T'', ''Func_F0x2T'']
   \<and> set (generated_internal_names ex_registry (ex_call [''a'', ''b''] [''c'']) ''0x1'' ex_func [])
       \<inter> set (generated_internal_names ex_registry unnamed_call ''0x2'' ex_func []) = {}"
proof -
  have n1: "resolved_node_name (ex_call [''a'', ''b''] [''c'']) ''0x1'' ex_func [] = ''n1''"
    by (simp add: resolved_node_name_def ex_call_def)
  have n2: "resolved_node_name unnamed_call ''0x2'' ex_func [] = ''F0x2''"
    by (simp add: resolved_node_name_def ex_call_def unnamed_call_def ex_func_def)
  have p1: "\<not> prefix ''n1'' ''F0x2''" by simp
  have p2: "\<not> prefix ''F0x2'' ''n1''" by simp
  have g1: "generated_internal_names ex_registry (ex_call [''a'', ''b''] [''c'']) ''0x1'' ex_func []
       = [''Func_n1T'', ''Func_n1T'']"
    by code_simp
  have g2: "generated_internal_names ex_registry unnamed_call ''0x2'' ex_func []
       = [''Func_F0x2T'', ''Func_F0x2T'']"
    by code_simp
  have "set (generated_internal_names ex_registry (ex_call [''a'', ''b''] [''c'']) ''0x1'' ex_func [])
       \<inter> set (generated_internal_names ex_registry unnamed_call ''0x2'' ex_func []) = {}"
    by (rule C1_disjoint_internal_names) (simp_all only: n1 n2 p1 p2 not_False_eq_True)
  then show ?thesis using n1 n2 p1 p2 g1 g2 by simp
qed

section \<open>Claim C9\<close>

text \<open>
  What the adapter does with a \<^verbatim>\<open>Constant\<close> input whose tensor has an empty list of
  64-bit integers. If the raw data is empty, or its size is not a multiple of 8, it fails
  with the assertion. Otherwise, for a count \<^verbatim>\<open>size_from_dim(0)\<close> that stays inside
  the buffer, the attribute \<^verbatim>\<open>axes\<close> is set to that many values, value \<open>i\<close> being
  the eight bytes from offset \<open>8 * i\<close> of the buffer read as one 64-bit integer, the
  second input is removed and the node is returned; the values cover the whole buffer
  when the count is the size divided by 8. For any other count the adapter reads outside
  the buffer.
\<close>

lemma adapt_raw_axes:
  assumes inputs: "n_inputs node = v0 # const_val # rest"
    and const: "v_node_kind const_val = kConstant"
    and empty: "t_int64s (v_node_value const_val) = []"
  shows "(t_raw (v_node_value const_val) = []
            \<or> length (t_raw (v_node_value const_val)) mod 8 \<noteq> 0 \<longrightarrow>
          adapt size_from_dim reinterpret initializers node
            = Inl (ONNX_ASSERTM ''Raw Data must be non-empty and size must be a multiple of 8''))
     \<and> (t_raw (v_node_value const_val) \<noteq> []
          \<and> length (t_raw (v_node_value const_val)) mod 8 = 0
          \<and> 0 \<le> size_from_dim (v_node_value const_val) 0
          \<and> 8 * nat (size_from_dim (v_node_value const_val) 0)
                \<le> length (t_raw (v_node_value const_val)) \<longrightarrow>
          adapt size_from_dim reinterpret initializers node
            = Inr (node\<lparr>n_inputs := v0 # rest,
                       n_axes := Some (map (\<lambda>i. reinterpret
                                          (take 8 (drop (8 * i) (t_raw (v_node_value const_val)))))
                                         [0 ..< nat (size_from_dim (v_node_value const_val) 0)])\<rparr>)
          \<and> (size_from_dim (v_node_value const_val) 0
                = int (length (t_raw (v_node_value const_val)) div 8) \<longrightarrow>
              concat (map (\<lambda>i. take 8 (drop (8 * i) (t_raw (v_node_value const_val))))
                        [0 ..< nat (size_from_dim (v_node_value const_val) 0)])
                = t_raw (v_node_value const_val)))
     \<and> (t_raw (v_node_value const_val) \<noteq> []
          \<and> length (t_raw (v_node_value const_val)) mod 8 = 0
          \<and> \<not> (0 \<le> size_from_dim (v_node_value const_val) 0
                \<and> 8 * nat (size_from_dim (v_node_value const_val) 0)
                     \<le> length (t_raw (v_node_value const_val))) \<longrightarrow>
          adapt size_from_dim reinterpret initializers node = Inl OutOfBoundsRead)"
proof (intro conjI impI)
  assume "t_raw (v_node_value const_val) = []
            \<or> length (t_raw (v_node_value const_val)) mod 8 \<noteq> 0"
  then show "adapt size_from_dim reinterpret initializers node
            = Inl (ONNX_ASSERTM ''Raw Data must be non-empty and size must be a multiple of 8'')"
    using inputs const empty by (auto simp: adapt_def Let_def)
next
  assume a: "t_raw (v_node_value const_val) \<noteq> []
          \<and> length (t_raw (v_node_value const_val)) mod 8 = 0
          \<and> 0 \<le> size_from_dim (v_node_value const_val) 0
          \<and> 8 * nat (size_from_dim (v_node_value const_val) 0)
                \<le> length (t_raw (v_node_value const_val))"
  then show "adapt size_from_dim reinterpret initializers node
            = Inr (node\<lparr>n_inputs := v0 # rest,
                       n_axes := Some (map (\<lambda>i. reinterpret
                                          (take 8 (drop (8 * i) (t_raw (v_node_value const_val)))))
                                         [0 ..< nat (size_from_dim (v_node_value const_val) 0)])\<rparr>)"
    using inputs const empty
    by (simp add: adapt_def Let_def assert_has_axes_def removeInput_def raw_int64s_def)
next
  assume a: "t_raw (v_node_value const_val) \<noteq> []
          \<and> length (t_raw (v_node_value const_val)) mod 8 = 0
          \<and> 0 \<le> size_from_dim (v_node_value const_val) 0
          \<and> 8 * nat (size_from_dim (v_node_value const_val) 0)
                \<le> length (t_raw (v_node_value const_val))"
    and n: "size_from_dim (v_node_value const_val) 0
                = int (length (t_raw (v_node_value const_val)) div 8)"
  have chunks: "concat (map (\<lambda>i. take 8 (drop (8 * i) xs)) [0 ..< k]) = take (8 * k) xs"
    for xs :: "8 word list" and k
  proof (induction k)
    case 0
    then show ?case by simp
  next
    case (Suc k)
    have "take (8 * k + 8) xs = take (8 * k) xs @ take 8 (drop (8 * k) xs)"
      by (rule take_add)
    moreover have "8 * Suc k = 8 * k + 8" by simp
    ultimately have "take (8 * Suc k) xs = take (8 * k) xs @ take 8 (drop (8 * k) xs)"
      by (simp only:)
    then show ?case using Suc by simp
  qed
  have "8 * (length (t_raw (v_node_value const_val)) div 8)
          = length (t_raw (v_node_value const_val))"
    using a by auto
  then show "concat (map (\<lambda>i. take 8 (drop (8 * i) (t_raw (v_node_value const_val))))
                        [0 ..< nat (size_from_dim (v_node_value const_val) 0)])
                = t_raw (v_node_value const_val)"
    by (simp add: chunks n)
next
  assume "t_raw (v_node_value const_val) \<noteq> []
          \<and> length (t_raw (v_node_value const_val)) mod 8 = 0
          \<and> \<not> (0 \<le> size_from_dim (v_node_value const_val) 0
                \<and> 8 * nat (size_from_dim (v_node_value const_val) 0)
                     \<le> length (t_raw (v_node_value const_val)))"
  then show "adapt size_from_dim reinterpret initializers node = Inl OutOfBoundsRead"
    using inputs const empty by (auto simp: adapt_def Let_def)
qed

text \<open>
  Claim C9. The claim is that a \<^verbatim>\<open>Constant\<close> input with an empty list of 64-bit
  integers either fails the assertion on its raw data or has its raw bytes read as the
  values of \<^verbatim>\<open>axes\<close>. The code checks the raw data only for being non-empty and a
  multiple of 8 (line 40), and then reads as many values as the dimensions of the tensor
  say (line 43), without comparing that count with the size of the raw data. The tensor
  \<open>three_axes_tensor\<close> has 16 raw bytes, which hold two values, and the dimensions
  \<open>[3]\<close>: the assertion holds, no error is raised for the malformed constant, and the
  adapter reads a third value from beyond the buffer. With the same 16 bytes and the
  dimensions \<open>[2]\<close> the two values of the buffer become \<^verbatim>\<open>axes\<close>, as the claim says,
  and with empty raw data or three raw bytes the assertion fails, as the claim says.
\<close>

theorem C9_read_past_buffer:
  "n_inputs short_buffer_node
     = [data_value, \<lparr>v_uniqueName = ''axes'', v_node_kind = kConstant,
                      v_node_value = three_axes_tensor\<rparr>]
   \<and> t_int64s three_axes_tensor = []
   \<and> length (t_raw three_axes_tensor) = 16
   \<and> t_sizes three_axes_tensor = [3]
   \<and> elem_count three_axes_tensor 0 = 3
   \<and> adapt elem_count le_int64 [] short_buffer_node = Inl OutOfBoundsRead
   \<and> adapt elem_count le_int64 [] short_buffer_node
       \<noteq> Inl (ONNX_ASSERTM ''Raw Data must be non-empty and size must be a multiple of 8'')
   \<and> adapt elem_count le_int64 [] (reduce_node sixteen_bytes)
       = Inr \<lparr>n_inputs = [data_value], n_axes = Some [1, 256]\<rparr>
   \<and> adapt elem_count le_int64 [] (reduce_node [])
       = Inl (ONNX_ASSERTM ''Raw Data must be non-empty and size must be a multiple of 8'')
   \<and> adapt elem_count le_int64 [] (reduce_node [1, 0, 0])
       = Inl (ONNX_ASSERTM ''Raw Data must be non-empty and size must be a multiple of 8'')"
  by code_simp

section \<open>Claims C7 and C8\<close>

lemma make_unique_fresh:
  "make_unique taken candidate \<notin> set taken \<and> prefix candidate (make_unique taken candidate)"
proof (induction taken candidate rule: make_unique.induct)
  case (1 taken candidate)
  show ?case
  proof (cases "candidate \<in> set taken")
    case False
    then have "make_unique taken candidate = candidate"
      by (subst make_unique.simps) simp
    then show ?thesis using False by simp
  next
    case True
    let ?r = "make_unique (remove1 candidate taken) (candidate @ ''_'')"
    have ih: "?r \<notin> set (remove1 candidate taken)" "prefix (candidate @ ''_'') ?r"
      using "1.IH" [OF True] by simp_all
    have eq: "make_unique taken candidate = ?r"
      using True by (subst make_unique.simps) simp
    have "length candidate < length ?r"
      using ih(2) by (auto simp: prefix_def)
    then have ne: "?r \<noteq> candidate" by auto
    have "x \<in> set (remove1 candidate taken)" if "x \<in> set taken" "x \<noteq> candidate" for x
      using that by (simp add: in_set_remove1)
    then have "?r \<notin> set taken" using ih(1) ne by blast
    moreover have "prefix candidate ?r"
      using ih(2) by (meson append_prefixD)
    ultimately show ?thesis by (simp only: eq) simp
  qed
qed

lemma BindToUniqueName_facts:
  "fst (BindToUniqueName x r) \<notin> set (rn_taken r)"
  "rn_taken (snd (BindToUniqueName x r)) = fst (BindToUniqueName x r) # rn_taken r"
  "rn_bindings (snd (BindToUniqueName x r)) = (rn_bindings r)(x \<mapsto> fst (BindToUniqueName x r))"
  "rn_prefix (snd (BindToUniqueName x r)) = rn_prefix r"
  by (simp_all add: BindToUniqueName_def Let_def make_unique_fresh)

lemma minted_names_Cons:
  "minted_names (t # ts) r
     = fst (BindToUniqueName (tp_name t) r) # minted_names ts (snd (BindToUniqueName (tp_name t) r))"
  by (simp add: case_prod_beta)

lemma minted_names_length [simp]: "length (minted_names ts r) = length ts"
  by (induction ts arbitrary: r) (simp_all add: case_prod_beta del: minted_names.simps(2) add: minted_names_Cons)


lemma fold_add_initializer:
  "fold add_initializer ts (r, fp)
     = (scope_after_minting ts r,
        fp\<lparr>fp_node := fp_node fp @ map2 constant_node (minted_names ts r) ts\<rparr>)"
proof (induction ts arbitrary: r fp)
  case Nil
  then show ?case by simp
next
  case (Cons t ts)
  have step: "add_initializer t (r, fp)
      = (snd (BindToUniqueName (tp_name t) r),
         fp\<lparr>fp_node := fp_node fp @ [constant_node (fst (BindToUniqueName (tp_name t) r)) t]\<rparr>)"
    by (simp add: add_initializer_def Const_def case_prod_beta)
  show ?case
    by (simp only: fold_simps step Cons.IH minted_names_Cons scope_after_minting.simps) simp
qed

lemma fold_add_renamed_node:
  "snd (fold add_renamed_node ns (r, fp)) = fp\<lparr>fp_node := fp_node fp @ renamed_nodes ns r\<rparr>"
proof (induction ns arbitrary: r fp)
  case Nil
  then show ?case by simp
next
  case (Cons n ns)
  have step: "add_renamed_node n (r, fp)
      = (snd (RenameNode n r), fp\<lparr>fp_node := fp_node fp @ [fst (RenameNode n r)]\<rparr>)"
    by (simp add: add_renamed_node_def case_prod_beta)
  show ?case
    by (simp only: fold_simps step Cons.IH) (simp add: case_prod_beta)
qed

lemma AddInlinedCall_nodes:
  "AddInlinedCall outputs graph inputs prefix' funProto
     = funProto\<lparr>fp_node := fp_node funProto
          @ splice_constants outputs graph inputs prefix' funProto
          @ splice_body outputs graph inputs prefix' funProto\<rparr>"
  by (simp add: AddInlinedCall_def Let_def fold_add_initializer fold_add_renamed_node
      splice_constants_def splice_body_def splice_minted_def splice_scope_def)




lemma rename_all_length [simp]: "length (fst (rename_all xs r)) = length xs"
  by (induction xs arbitrary: r) (simp_all add: case_prod_beta)






lemma renamed_nodes_length [simp]: "length (renamed_nodes ns r) = length ns"
  by (induction ns arbitrary: r) (simp_all add: case_prod_beta)



lemma scope_after_minting_other:
  "x \<notin> tp_name ` set ts \<Longrightarrow> rn_bindings (scope_after_minting ts r) x = rn_bindings r x"
  by (induction ts arbitrary: r) (simp_all add: BindToUniqueName_facts)

lemma scope_after_minting_bound:
  "distinct (map tp_name ts) \<Longrightarrow> i < length ts \<Longrightarrow>
   rn_bindings (scope_after_minting ts r) (tp_name (ts ! i)) = Some (minted_names ts r ! i)"
proof (induction ts arbitrary: r i)
  case Nil
  then show ?case by simp
next
  case (Cons t ts)
  show ?case
  proof (cases i)
    case 0
    have "tp_name t \<notin> tp_name ` set ts" using Cons.prems by simp
    then show ?thesis
      unfolding minted_names_Cons using 0
      by (simp add: scope_after_minting_other BindToUniqueName_facts)
  next
    case (Suc k)
    then show ?thesis
      unfolding minted_names_Cons using Cons.IH [of k] Cons.prems by simp
  qed
qed









text \<open>
  Claim C8. The call site, the function definition and the spliced graph are passed by
  constant reference; they are arguments of the model and no result of it, so the one
  thing a call changes is its destination. \<^verbatim>\<open>FunctionExpandHelper\<close> leaves the
  destination graph as it was but for its list of nodes, which is the list it had
  followed by new records: one per body node of the function when it succeeds, none when
  it raises. \<^verbatim>\<open>AddInlinedCall\<close> leaves the function under construction as it was but
  for its list of nodes, which is the list it had followed by one new record per
  initializer and per body node of the spliced graph.
\<close>

theorem C8_only_appends:
  "(\<exists>new. snd (FunctionExpandHelper reg node address func g node_prefix)
            = g\<lparr>gp_node := gp_node g @ new\<rparr>
         \<and> length new = (case fst (FunctionExpandHelper reg node address func g node_prefix) of
                           None \<Rightarrow> length (fp_node func)
                         | Some e \<Rightarrow> 0))
   \<and> (\<exists>new. AddInlinedCall outputs graph inputs prefix' funProto
            = funProto\<lparr>fp_node := fp_node funProto @ new\<rparr>
         \<and> length new = length (gp_initializer graph) + length (gp_node graph))"
proof
  show "\<exists>new. snd (FunctionExpandHelper reg node address func g node_prefix)
            = g\<lparr>gp_node := gp_node g @ new\<rparr>
         \<and> length new = (case fst (FunctionExpandHelper reg node address func g node_prefix) of
                           None \<Rightarrow> length (fp_node func)
                         | Some e \<Rightarrow> 0)"
  proof (cases "expand_prologue reg node address func node_prefix")
    case (Inl e)
    then have "snd (FunctionExpandHelper reg node address func g node_prefix)
                 = g\<lparr>gp_node := gp_node g @ []\<rparr>"
      and "fst (FunctionExpandHelper reg node address func g node_prefix) = Some e"
      by (simp_all add: FunctionExpandHelper_def)
    then show ?thesis by (intro exI [of _ "[]"]) simp
  next
    case (Inr t)
    obtain nn io am where t: "t = (nn, io, am)" by (cases t)
    have "snd (FunctionExpandHelper reg node address func g node_prefix)
                 = g\<lparr>gp_node := gp_node g @ map (expand_node io am nn) (fp_node func)\<rparr>"
      and "fst (FunctionExpandHelper reg node address func g node_prefix) = None"
      using Inr t by (simp_all add: FunctionExpandHelper_def)
    then show ?thesis
      by (intro exI [of _ "map (expand_node io am nn) (fp_node func)"]) simp
  qed
  show "\<exists>new. AddInlinedCall outputs graph inputs prefix' funProto
            = funProto\<lparr>fp_node := fp_node funProto @ new\<rparr>
         \<and> length new = length (gp_initializer graph) + length (gp_node graph)"
    by (intro exI [of _ "splice_constants outputs graph inputs prefix' funProto
                          @ splice_body outputs graph inputs prefix' funProto"])
       (simp add: AddInlinedCall_nodes splice_constants_def splice_body_def splice_minted_def)
qed

theorem C8_only_appends_witness:
  "fst (FunctionExpandHelper ex_registry (ex_call [''a'', ''b''] [''c'']) ''0x1'' ex_func
          busy_graph []) = None
   \<and> length (gp_node (snd (FunctionExpandHelper ex_registry (ex_call [''a'', ''b''] [''c''])
                             ''0x1'' ex_func busy_graph []))) = 3
   \<and> take 1 (gp_node (snd (FunctionExpandHelper ex_registry (ex_call [''a'', ''b''] [''c''])
                             ''0x1'' ex_func busy_graph []))) = gp_node busy_graph
   \<and> gp_initializer (snd (FunctionExpandHelper ex_registry (ex_call [''a'', ''b''] [''c''])
                             ''0x1'' ex_func busy_graph [])) = gp_initializer busy_graph
   \<and> snd (FunctionExpandHelper ex_registry (ex_call [''a'', ''b'', ''c''] [''c''])
                             ''0x1'' ex_func busy_graph []) = busy_graph
   \<and> length (fp_node (AddInlinedCall [''output0''] matmul_graph [''input0''] ''p1_''
                         empty_function)) = 5
   \<and> take 1 (fp_node (AddInlinedCall [''output0''] matmul_graph [''input0''] ''p1_''
                         empty_function)) = fp_node empty_function
   \<and> fp_input (AddInlinedCall [''output0''] matmul_graph [''input0''] ''p1_'' empty_function)
       = fp_input empty_function"
proof -
  have ok: "fst (FunctionExpandHelper ex_registry (ex_call [''a'', ''b''] [''c'']) ''0x1'' ex_func
          busy_graph []) = None"
    by code_simp
  have bad: "fst (FunctionExpandHelper ex_registry (ex_call [''a'', ''b'', ''c''] [''c''])
                ''0x1'' ex_func busy_graph [])
               = Some (ONNX_THROW ''Input for function node n1 is out of bounds'')"
    by code_simp
  have sizes: "length (gp_node busy_graph) = 1" "length (fp_node ex_func) = 2"
    "length (fp_node empty_function) = 1" "length (gp_initializer matmul_graph) = 2"
    "length (gp_node matmul_graph) = 2"
    by (simp_all add: busy_graph_def ex_func_def empty_function_def matmul_graph_def)
  obtain new1 where new1:
    "snd (FunctionExpandHelper ex_registry (ex_call [''a'', ''b''] [''c'']) ''0x1'' ex_func
            busy_graph []) = busy_graph\<lparr>gp_node := gp_node busy_graph @ new1\<rparr>"
    "length new1 = 2"
    using C8_only_appends [of ex_registry "ex_call [''a'', ''b''] [''c'']" "''0x1''" ex_func
        busy_graph "[]", THEN conjunct1]
    by (auto simp: ok sizes)
  obtain new2 where new2:
    "snd (FunctionExpandHelper ex_registry (ex_call [''a'', ''b'', ''c''] [''c'']) ''0x1'' ex_func
            busy_graph []) = busy_graph\<lparr>gp_node := gp_node busy_graph @ new2\<rparr>"
    "length new2 = 0"
    using C8_only_appends [of ex_registry "ex_call [''a'', ''b'', ''c''] [''c'']" "''0x1''" ex_func
        busy_graph "[]", THEN conjunct1]
    by (auto simp: bad)
  obtain new3 where new3:
    "AddInlinedCall [''output0''] matmul_graph [''input0''] ''p1_'' empty_function
       = empty_function\<lparr>fp_node := fp_node empty_function @ new3\<rparr>"
    "length new3 = 4"
    using C8_only_appends [where outputs = "[''output0'']" and graph = matmul_graph
        and inputs = "[''input0'']" and prefix' = "''p1_''" and funProto = empty_function,
        THEN conjunct2]
    by (auto simp: sizes)
  show ?thesis
    using ok new1 new2 new3 by (simp add: sizes)
qed

end
